theory Spec2Isabelle
  imports Main "HOL-Library.Multiset"
begin

section \<open>Release levels\<close>

text \<open>
  Modelled from the spec: the enumeration \<^verbatim>\<open>LevelBump\<close> of \<^verbatim>\<open>semantic_release/enums.py\<close>,
  a module that every module below imports and that is not among the source files. The
  spec: "totally ordered enumeration NO_RELEASE < PATCH < MINOR < MAJOR".
\<close>

datatype LevelBump = NO_RELEASE | PATCH | MINOR | MAJOR

fun level_rank :: "LevelBump \<Rightarrow> nat" where
  "level_rank NO_RELEASE = 0"
| "level_rank PATCH = 1"
| "level_rank MINOR = 2"
| "level_rank MAJOR = 3"

instantiation LevelBump :: linorder
begin

definition less_eq_LevelBump :: "LevelBump \<Rightarrow> LevelBump \<Rightarrow> bool" where
  "less_eq_LevelBump a b = (level_rank a \<le> level_rank b)"

definition less_LevelBump :: "LevelBump \<Rightarrow> LevelBump \<Rightarrow> bool" where
  "less_LevelBump a b = (level_rank a < level_rank b)"

instance
proof
  fix x y z :: LevelBump
  show "(x < y) = (x \<le> y \<and> \<not> y \<le> x)"
    by (auto simp: less_eq_LevelBump_def less_LevelBump_def)
  show "x \<le> x"
    by (simp add: less_eq_LevelBump_def)
  show "x \<le> y \<Longrightarrow> y \<le> z \<Longrightarrow> x \<le> z"
    by (simp add: less_eq_LevelBump_def)
  show "x \<le> y \<Longrightarrow> y \<le> x \<Longrightarrow> x = y"
    by (cases x; cases y) (simp_all add: less_eq_LevelBump_def)
  show "x \<le> y \<or> y \<le> x"
    by (auto simp: less_eq_LevelBump_def)
qed

end

section \<open>Versions\<close>

text \<open>
  \<^verbatim>\<open>class Version(semver.VersionInfo)\<close> of \<^verbatim>\<open>version/version.py\<close>. A version carries the
  core triple, an optional prerelease suffix and optional build metadata. The prerelease
  suffix \<^verbatim>\<open>token.revision\<close> is kept in its two parts, the way the algorithm reads it
  (\<^verbatim>\<open>prerelease_token\<close>, \<^verbatim>\<open>prerelease_revision\<close>).
\<close>

record Version =
  major :: nat
  minor :: nat
  patch :: nat
  prerelease_token :: "string option"
  prerelease_revision :: "nat option"
  build :: "string option"

definition mk_version :: "nat \<Rightarrow> nat \<Rightarrow> nat \<Rightarrow> Version" where
  "mk_version a b c =
     \<lparr>major = a, minor = b, patch = c, prerelease_token = None,
      prerelease_revision = None, build = None\<rparr>"

text \<open>
  A character of a string stands for the Unicode code point of the same number, so the
  strings of the model are the Python strings whose code points are below 256. On that
  range \<^verbatim>\<open>\d\<close> and \<^verbatim>\<open>[0-9]\<close> are the ten digits.
\<close>

definition is_digit :: "char \<Rightarrow> bool" where
  "is_digit c = (48 \<le> (of_char c :: nat) \<and> (of_char c :: nat) \<le> 57)"

text \<open>\<^verbatim>\<open>int(s)\<close> of a string of digits and \<^verbatim>\<open>str(n)\<close> of a number.\<close>

definition int_of_digits :: "string \<Rightarrow> nat" where
  "int_of_digits ds = foldl (\<lambda>n c. 10 * n + (of_char c - 48)) 0 ds"

function str_of_nat :: "nat \<Rightarrow> string" where
  "str_of_nat n =
     (if n < 10 then [char_of (48 + n)]
      else str_of_nat (n div 10) @ [char_of (48 + n mod 10)])"
  by pat_completeness auto
termination
  by (relation "measure (\<lambda>n. n)") auto

declare str_of_nat.simps [simp del]

text \<open>
  The prerelease string that \<^verbatim>\<open>semver.VersionInfo\<close> keeps: the token, followed by a dot
  and the revision when there is one.
\<close>

definition prerelease_string :: "Version \<Rightarrow> string option" where
  "prerelease_string v =
     (case prerelease_token v of
        None \<Rightarrow> None
      | Some t \<Rightarrow>
          Some (case prerelease_revision v of
                  None \<Rightarrow> t
                | Some r \<Rightarrow> t @ ''.'' @ str_of_nat r))"

text \<open>The truth value of \<^verbatim>\<open>self.prerelease\<close>: a prerelease string that is not empty.\<close>

definition has_prerelease :: "Version \<Rightarrow> bool" where
  "has_prerelease v = (prerelease_string v \<noteq> None \<and> prerelease_string v \<noteq> Some [])"

text \<open>
  Of the \<^verbatim>\<open>semver\<close> library: \<^verbatim>\<open>bump_major\<close>, \<^verbatim>\<open>bump_minor\<close> and \<^verbatim>\<open>bump_patch\<close> build a fresh
  version from the core triple only, and \<^verbatim>\<open>finalize_version\<close> keeps the core triple.
\<close>

definition bump_major :: "Version \<Rightarrow> Version" where
  "bump_major v = mk_version (major v + 1) 0 0"

definition bump_minor :: "Version \<Rightarrow> Version" where
  "bump_minor v = mk_version (major v) (minor v + 1) 0"

definition bump_patch :: "Version \<Rightarrow> Version" where
  "bump_patch v = mk_version (major v) (minor v) (patch v + 1)"

definition finalize_version :: "Version \<Rightarrow> Version" where
  "finalize_version v = mk_version (major v) (minor v) (patch v)"

text \<open>
  \<^verbatim>\<open>semver\<close>'s \<^verbatim>\<open>_increment_string\<close>: the last run of digits of the string is replaced by
  the number it reads plus one, written over the end of the run (so that leading zeros
  stay while the number is shorter than the run); a string without a digit is left as
  it is.
\<close>

definition increment_string :: "string \<Rightarrow> string" where
  "increment_string s =
     (let after = rev (takeWhile (\<lambda>c. \<not> is_digit c) (rev s));
          rest = dropWhile (\<lambda>c. \<not> is_digit c) (rev s);
          digits = rev (takeWhile is_digit rest);
          before = rev (dropWhile is_digit rest)
      in
        if digits = [] then s
        else
          (let next = str_of_nat (int_of_digits digits + 1)
           in before @ take (length digits - length next) digits @ next @ after))"

text \<open>
  \<^verbatim>\<open>semver\<close>'s \<^verbatim>\<open>bump_prerelease(token)\<close> increments the prerelease string, or
  \<^verbatim>\<open>(token or "rc") + ".0"\<close> when the version has none or an empty one. With a revision
  the last run of digits is the revision; without one it is the last run of digits of
  the token.
\<close>

definition bump_prerelease :: "string \<Rightarrow> Version \<Rightarrow> Version" where
  "bump_prerelease token v =
     (if \<not> has_prerelease v
      then
        (mk_version (major v) (minor v) (patch v))
          \<lparr>prerelease_token := Some (if token = [] then ''rc'' else token),
           prerelease_revision := Some 1\<rparr>
      else
        (case prerelease_revision v of
           Some r \<Rightarrow>
             (mk_version (major v) (minor v) (patch v))
               \<lparr>prerelease_token := prerelease_token v, prerelease_revision := Some (r + 1)\<rparr>
         | None \<Rightarrow>
             (mk_version (major v) (minor v) (patch v))
               \<lparr>prerelease_token := map_option increment_string (prerelease_token v),
                prerelease_revision := None\<rparr>))"

text \<open>
  Precedence, as \<^verbatim>\<open>semver.VersionInfo.compare\<close> computes it. The core triples compare
  lexicographically. On equal triples the prerelease strings are compared by
  \<^verbatim>\<open>_nat_cmp\<close>: both are split at the dots, an identifier that \<^verbatim>\<open>^[0-9]+$\<close> matches is read
  as a number, numbers are below other identifiers, two numbers compare as numbers and
  two other identifiers as strings; when no pair of identifiers differs, the lengths of
  the two strings decide. A version without a prerelease is above one with a
  prerelease. Build metadata is ignored.
\<close>

definition core_less :: "Version \<Rightarrow> Version \<Rightarrow> bool" where
  "core_less a b =
     (major a < major b \<or>
      (major a = major b \<and>
        (minor a < minor b \<or> (minor a = minor b \<and> patch a < patch b))))"

definition core_eq :: "Version \<Rightarrow> Version \<Rightarrow> bool" where
  "core_eq a b = (major a = major b \<and> minor a = minor b \<and> patch a = patch b)"

text \<open>\<^verbatim>\<open>key.split(".")\<close>, collecting the characters of the current piece in \<open>acc\<close>.\<close>

fun split_dots :: "string \<Rightarrow> string \<Rightarrow> string list" where
  "split_dots acc [] = [rev acc]"
| "split_dots acc (c # cs) =
     (if c = CHR ''.'' then rev acc # split_dots [] cs else split_dots (c # acc) cs)"

datatype part = Numeric nat | Text string

text \<open>
  \<^verbatim>\<open>convert\<close>: \<^verbatim>\<open>$\<close> also matches before a newline that ends the text, and \<^verbatim>\<open>int\<close> ignores
  that newline.
\<close>

definition convert :: "string \<Rightarrow> part" where
  "convert text =
     (if takeWhile is_digit text \<noteq> [] \<and>
         (dropWhile is_digit text = [] \<or> dropWhile is_digit text = [CHR 0x0A])
      then Numeric (int_of_digits (takeWhile is_digit text))
      else Text text)"

definition split_key :: "string \<Rightarrow> part list" where
  "split_key key = map convert (split_dots [] key)"

text \<open>The order of Python strings: code point by code point, a proper prefix first.\<close>

fun str_less :: "string \<Rightarrow> string \<Rightarrow> bool" where
  "str_less [] [] = False"
| "str_less [] (y # ys) = True"
| "str_less (x # xs) [] = False"
| "str_less (x # xs) (y # ys) =
     (of_char x < (of_char y :: nat) \<or> (x = y \<and> str_less xs ys))"

definition cmp_nat :: "nat \<Rightarrow> nat \<Rightarrow> int" where
  "cmp_nat a b = (if a < b then - 1 else if b < a then 1 else 0)"

definition cmp_str :: "string \<Rightarrow> string \<Rightarrow> int" where
  "cmp_str a b = (if str_less a b then - 1 else if str_less b a then 1 else 0)"

fun cmp_prerelease_tag :: "part \<Rightarrow> part \<Rightarrow> int" where
  "cmp_prerelease_tag (Numeric a) (Numeric b) = cmp_nat a b"
| "cmp_prerelease_tag (Numeric a) (Text b) = - 1"
| "cmp_prerelease_tag (Text a) (Numeric b) = 1"
| "cmp_prerelease_tag (Text a) (Text b) = cmp_str a b"

text \<open>The loop over \<^verbatim>\<open>zip(a_parts, b_parts)\<close>: the first result that is not 0, or 0.\<close>

fun cmp_parts :: "part list \<Rightarrow> part list \<Rightarrow> int" where
  "cmp_parts (x # xs) (y # ys) =
     (if cmp_prerelease_tag x y \<noteq> 0 then cmp_prerelease_tag x y else cmp_parts xs ys)"
| "cmp_parts _ _ = 0"

definition nat_cmp :: "string option \<Rightarrow> string option \<Rightarrow> int" where
  "nat_cmp rc1 rc2 =
     (let a = (case rc1 of None \<Rightarrow> [] | Some s \<Rightarrow> s);
          b = (case rc2 of None \<Rightarrow> [] | Some s \<Rightarrow> s)
      in
        if cmp_parts (split_key a) (split_key b) \<noteq> 0
        then cmp_parts (split_key a) (split_key b)
        else cmp_nat (length a) (length b))"

text \<open>The part of \<^verbatim>\<open>compare\<close> that is reached on equal core triples.\<close>

definition prerelease_compare :: "Version \<Rightarrow> Version \<Rightarrow> int" where
  "prerelease_compare a b =
     (let rc1 = prerelease_string a;
          rc2 = prerelease_string b;
          rcx = nat_cmp rc1 rc2
      in
        if rcx = 0 then 0
        else if \<not> has_prerelease a then 1
        else if \<not> has_prerelease b then - 1
        else rcx)"

definition prerelease_less :: "Version \<Rightarrow> Version \<Rightarrow> bool" where
  "prerelease_less a b = (prerelease_compare a b < 0)"

definition version_less :: "Version \<Rightarrow> Version \<Rightarrow> bool" where
  "version_less a b = (core_less a b \<or> (core_eq a b \<and> prerelease_less a b))"

text \<open>
  Two versions are the same key of a dictionary when they have the same hash, which
  \<^verbatim>\<open>semver\<close> takes of \<^verbatim>\<open>to_tuple()[:4]\<close>, the core triple and the prerelease string, and
  are equal, which versions with the same core triple and prerelease string are.
\<close>

definition version_eq :: "Version \<Rightarrow> Version \<Rightarrow> bool" where
  "version_eq a b = (core_eq a b \<and> prerelease_string a = prerelease_string b)"

text \<open>
  \<^verbatim>\<open>Version.bump\<close>. \<^verbatim>\<open>Version(*self.to_tuple())\<close> rebuilds the version from all of its
  fields, so the copy equals the original.
\<close>

definition bump :: "Version \<Rightarrow> LevelBump \<Rightarrow> bool \<Rightarrow> string \<Rightarrow> Version" where
  "bump self level prerelease token =
     (if level = NO_RELEASE then self
      else if has_prerelease self \<and> prerelease then bump_prerelease ''rc'' self
      else
        let version =
              (if level = MAJOR then bump_major self
               else if level = MINOR then bump_minor self
               else if level = PATCH then bump_patch self
               else self)
        in if prerelease then bump_prerelease token version else version)"

text \<open>
  The algorithm reads and builds versions through members of \<^verbatim>\<open>Version\<close> that
  \<^verbatim>\<open>version/version.py\<close> does not define: \<^verbatim>\<open>is_prerelease\<close>, \<^verbatim>\<open>to_prerelease\<close>, the subtraction
  of two versions and the keyword \<^verbatim>\<open>prerelease_token\<close> of the constructor.
\<close>

text \<open>
  Modelled from the spec: the property \<^verbatim>\<open>Version.is_prerelease\<close>, missing from
  \<^verbatim>\<open>version/version.py\<close>. The spec: "is_prerelease \<open>\<Leftrightarrow>\<close> prerelease_token is set".
\<close>

definition is_prerelease :: "Version \<Rightarrow> bool" where
  "is_prerelease v = (prerelease_token v \<noteq> None)"

text \<open>
  Modelled from the spec: the method \<^verbatim>\<open>Version.to_prerelease(token, revision)\<close>, missing
  from \<^verbatim>\<open>version/version.py\<close>. The spec: "attaches or replaces the prerelease suffix";
  "prerelease revision, if present, is \<open>\<ge>\<close> 1", and the algorithm's call without a revision
  is described with "revision=1", so a revision that is neither given nor present
  starts at 1.
\<close>

definition to_prerelease :: "Version \<Rightarrow> string \<Rightarrow> nat option \<Rightarrow> Version" where
  "to_prerelease v token revision =
     v\<lparr>prerelease_token := Some token,
       prerelease_revision :=
         Some (case revision of
                 Some r \<Rightarrow> r
               | None \<Rightarrow> (case prerelease_revision v of Some r \<Rightarrow> r | None \<Rightarrow> 1))\<rparr>"

text \<open>
  Modelled from the spec: the subtraction \<^verbatim>\<open>Version.__sub__\<close>, missing from
  \<^verbatim>\<open>version/version.py\<close>. The spec: "subtraction a - b returns the coarsest LevelBump that
  differs between the core triples".
\<close>

definition version_diff :: "Version \<Rightarrow> Version \<Rightarrow> LevelBump" where
  "version_diff a b =
     (if major a \<noteq> major b then MAJOR
      else if minor a \<noteq> minor b then MINOR
      else if patch a \<noteq> patch b then PATCH
      else NO_RELEASE)"

text \<open>
  Modelled from the spec: the constructor call
  \<^verbatim>\<open>Version(0, 0, 0, prerelease_token=translator.prerelease_token)\<close>, whose keyword is missing
  from \<^verbatim>\<open>version/version.py\<close>. The spec: a version is the value
  "(major, minor, patch, prerelease_token?, prerelease_revision?, build?)".
\<close>

definition zero_version :: "string \<Rightarrow> Version" where
  "zero_version token = (mk_version 0 0 0)\<lparr>prerelease_token := Some token\<rparr>"

section \<open>Commits, tags and the translator\<close>

text \<open>
  Git objects come from GitPython. A commit is identified by its content, parents
  included, so equality of commits is equality of these values.
\<close>

datatype Commit =
  Commit (hexsha: string) (message: string) (author: string)
    (author_tz_offset: int) (committed_date: int) (parents: "Commit list")

text \<open>
  What a tag refers to: a tag object with its tagger, the tagger's timezone offset and
  the date of tagging, or the commit itself.
\<close>

datatype TagTarget =
    TagObject string int int
  | CommitObject Commit

record Tag =
  name :: string
  commit :: Commit
  object :: TagTarget

text \<open>
  \<^verbatim>\<open>VersionTranslator\<close> (\<^verbatim>\<open>version/translator.py\<close>) is not among the source files; the
  algorithm takes it as an argument, and so does the model. \<open>from_tag\<close> yields no version
  for a tag that is not a version tag; \<open>as_tag\<close> renders a version with the tag format.
\<close>

datatype error =
    TypeError | AttributeError | IndexError | KeyError | NotImplementedError
  | ValueError | RuntimeError | CommitParseError string

record VersionTranslator =
  from_tag :: "string \<Rightarrow> Version option"
  from_string :: "string \<Rightarrow> error + Version"
  as_tag :: "Version \<Rightarrow> string"
  translator_token :: string

subsection \<open>\<open>tags_and_versions\<close>\<close>

text \<open>
  \<^verbatim>\<open>sorted(..., reverse=True, key=lambda v: v[1])\<close>: a stable sort, descending in the key.
  Sorting compares keys with \<open><\<close>; a comparison with \<^verbatim>\<open>None\<close> on either side raises
  \<^verbatim>\<open>TypeError\<close>, and every element of a list of two or more takes part in a comparison.
\<close>

fun key_less :: "Version option \<Rightarrow> Version option \<Rightarrow> bool" where
  "key_less (Some a) (Some b) = version_less a b"
| "key_less _ _ = False"

fun insort_desc :: "'t \<times> Version option \<Rightarrow> ('t \<times> Version option) list \<Rightarrow>
    ('t \<times> Version option) list" where
  "insort_desc x [] = [x]"
| "insort_desc x (y # ys) =
     (if key_less (snd x) (snd y) then y # insort_desc x ys else x # y # ys)"

definition sorted_desc :: "('t \<times> Version option) list \<Rightarrow> error + ('t \<times> Version option) list" where
  "sorted_desc xs =
     (if 2 \<le> length xs \<and> (\<exists>x \<in> set xs. snd x = None) then Inl TypeError
      else Inr (foldr insort_desc xs []))"

definition tags_and_versions ::
    "Tag list \<Rightarrow> VersionTranslator \<Rightarrow> error + (Tag \<times> Version option) list" where
  "tags_and_versions tags translator =
     sorted_desc (map (\<lambda>t. (t, from_tag translator (name t))) tags)"

subsection \<open>\<open>_bfs_for_latest_version_in_history\<close>\<close>

lemma sum_size_parents: "sum_list (map size (parents node)) < size node"
proof -
  have "sum_list (map size ps) \<le> size_list size ps" for ps :: "Commit list"
    by (induction ps) simp_all
  then show ?thesis
    by (cases node) (simp add: le_imp_less_Suc)
qed

text \<open>
  The inner function \<^verbatim>\<open>bfs(visited, q)\<close>: the queue is a list consumed at its head and
  extended at its end.
\<close>

function bfs :: "(Tag \<times> Version) list \<Rightarrow> Commit set \<Rightarrow> Commit list \<Rightarrow> Version option" where
  "bfs tvs visited [] = None"
| "bfs tvs visited (node # q) =
     (if node \<in> visited then None
      else
        (case find (\<lambda>(tag, version). commit tag = node) tvs of
           Some (tag, version) \<Rightarrow> Some version
         | None \<Rightarrow> bfs tvs (insert node visited) (q @ parents node)))"
  by pat_completeness auto
termination
proof (relation "measure (\<lambda>(tvs, visited, q). sum_list (map size q))")
  show "wf (measure (\<lambda>(tvs, visited, q). sum_list (map size q)))"
    by simp
next
  fix tvs :: "(Tag \<times> Version) list" and visited :: "Commit set" and node q
  show "((tvs, insert node visited, q @ parents node), (tvs, visited, node # q))
          \<in> measure (\<lambda>(tvs, visited, q). sum_list (map size q))"
    using sum_size_parents [of node] by simp
qed

definition bfs_for_latest_version_in_history ::
    "Commit \<Rightarrow> (Tag \<times> Version) list \<Rightarrow> Version option" where
  "bfs_for_latest_version_in_history merge_base full_release_tags_and_versions =
     bfs full_release_tags_and_versions {} [merge_base]"

text \<open>The commits of a history: a commit and everything reachable through parents.\<close>

fun ancestry :: "Commit \<Rightarrow> Commit list" where
  "ancestry (Commit h m a z d ps) = Commit h m a z d ps # concat (map ancestry ps)"

subsection \<open>\<open>_increment_version\<close>\<close>

text \<open>
  \<^verbatim>\<open>bump\<close> is called with its defaults (\<^verbatim>\<open>prerelease=False\<close>, \<^verbatim>\<open>prerelease_token="beta"\<close>);
  \<^verbatim>\<open>(latest_version.prerelease_revision or 0) + 1\<close> counts a missing revision as 0.
\<close>

definition increment_version ::
    "Version \<Rightarrow> Version \<Rightarrow> Version \<Rightarrow> LevelBump \<Rightarrow> bool \<Rightarrow> string \<Rightarrow> bool \<Rightarrow> Version" where
  "increment_version latest_version latest_full_version latest_full_version_in_history
      level_bump0 prerelease token major_on_zero =
     (let level_bump =
            (if \<not> major_on_zero \<and> major latest_version = 0 then min level_bump0 MINOR
             else level_bump0)
      in
        if prerelease then
          (let target_final_version = finalize_version latest_full_version;
               diff_with_last_released_version =
                 version_diff latest_version latest_full_version_in_history
           in
             if level_bump > diff_with_last_released_version
             then to_prerelease (bump target_final_version level_bump False ''beta'') token None
             else to_prerelease latest_version token
                    (Some (if prerelease_token latest_version \<noteq> Some token then 1
                           else (case prerelease_revision latest_version of
                                   Some r \<Rightarrow> r
                                 | None \<Rightarrow> 0) + 1)))
        else if is_prerelease latest_version then
          (let diff_with_last_released_version =
                 version_diff latest_version latest_full_version_in_history
           in
             if level_bump > diff_with_last_released_version
             then finalize_version (bump latest_version level_bump False ''beta'')
             else finalize_version latest_version)
        else bump latest_version level_bump False ''beta'')"

section \<open>Parse results\<close>

text \<open>\<^verbatim>\<open>commit_parser/token.py\<close>: the two kinds of parse result.\<close>

record ParsedCommit =
  pc_bump :: LevelBump
  pc_type :: string
  pc_scope :: "string option"
  pc_descriptions :: "string list"
  pc_breaking_descriptions :: "string list"
  pc_commit :: Commit

record ParseError =
  pe_commit :: Commit
  pe_error :: string

datatype ParseResult = Parsed ParsedCommit | Failed ParseError

text \<open>\<^verbatim>\<open>ParseError.raise_error\<close> always raises.\<close>

definition raise_error :: "ParseError \<Rightarrow> error + unit" where
  "raise_error self = Inl (CommitParseError (pe_error self))"

section \<open>\<open>next_version\<close>\<close>

text \<open>
  The repository is GitPython's \<^verbatim>\<open>Repo\<close>: its tags, the active branch, \<^verbatim>\<open>merge_base\<close> of two
  revisions and \<^verbatim>\<open>iter_commits\<close> of an optional revision range (newest commit first).
\<close>

record Repo =
  tags :: "Tag list"
  active_branch :: string
  merge_base :: "string \<Rightarrow> string \<Rightarrow> Commit option list"
  iter_commits :: "string option \<Rightarrow> Commit list"

text \<open>
  The loop over \<^verbatim>\<open>commits_since_last_full_release\<close>: every commit adds its level when it
  parses; the first commit that a qualifying tag points at sets \<^verbatim>\<open>latest_version\<close> and ends
  the loop.
\<close>

fun walk_commits :: "(Commit \<Rightarrow> ParseResult) \<Rightarrow> (Tag \<times> Version) list \<Rightarrow> Commit list \<Rightarrow>
    LevelBump set \<Rightarrow> Version \<Rightarrow> LevelBump set \<times> Version" where
  "walk_commits parse tvs [] parsed_levels latest_version = (parsed_levels, latest_version)"
| "walk_commits parse tvs (c # cs) parsed_levels latest_version =
     (let parsed_levels' =
            (case parse c of
               Parsed parse_result \<Rightarrow> insert (pc_bump parse_result) parsed_levels
             | Failed _ \<Rightarrow> parsed_levels)
      in
        case find (\<lambda>(tag, version). commit tag = c) tvs of
          Some (tag, version) \<Rightarrow> (parsed_levels', version)
        | None \<Rightarrow> walk_commits parse tvs cs parsed_levels' latest_version)"

definition max_level :: "LevelBump set \<Rightarrow> LevelBump" where
  "max_level parsed_levels = (if parsed_levels = {} then NO_RELEASE else Max parsed_levels)"

text \<open>
  Reading \<^verbatim>\<open>v.is_prerelease\<close> of a pair whose version is \<^verbatim>\<open>None\<close> raises
  \<^verbatim>\<open>AttributeError\<close>; \<^verbatim>\<open>merge_bases[0]\<close> of an empty list raises \<^verbatim>\<open>IndexError\<close>. The default
  of \<^verbatim>\<open>next(...)\<close> is evaluated whether it is used or not.
\<close>

definition next_version ::
    "Repo \<Rightarrow> VersionTranslator \<Rightarrow> (Commit \<Rightarrow> ParseResult) \<Rightarrow> bool \<Rightarrow> bool \<Rightarrow> error + Version" where
  "next_version repo translator parse prerelease major_on_zero =
     (case tags_and_versions (tags repo) translator of
        Inl e \<Rightarrow> Inl e
      | Inr tvs \<Rightarrow>
     (case those (map (\<lambda>(t, v). map_option (Pair t) v) tvs) of
        None \<Rightarrow> Inl AttributeError
      | Some all_git_tags_as_versions \<Rightarrow>
     (let all_full_release_tags_and_versions =
            filter (\<lambda>(t, v). \<not> is_prerelease v) all_git_tags_as_versions
      in
     (case from_string translator ''0.0.0'' of
        Inl e \<Rightarrow> Inl e
      | Inr zero \<Rightarrow>
     (let (latest_full_release_tag, latest_full_release_version) =
            (case all_full_release_tags_and_versions of
               [] \<Rightarrow> (None, zero)
             | (t, v) # _ \<Rightarrow> (Some t, v));
          merge_bases =
            (case latest_full_release_tag of
               None \<Rightarrow> merge_base repo (active_branch repo) (active_branch repo)
             | Some t \<Rightarrow> merge_base repo (name t) (active_branch repo))
      in
        if 1 < length merge_bases then Inl NotImplementedError
        else
     (case merge_bases of
        [] \<Rightarrow> Inl IndexError
      | None # _ \<Rightarrow> Inl ValueError
      | Some mb # _ \<Rightarrow>
     (let latest_full_version_in_history =
            bfs_for_latest_version_in_history mb all_full_release_tags_and_versions;
          commits_since_last_full_release =
            (case latest_full_version_in_history of
               None \<Rightarrow> iter_commits repo None
             | Some v \<Rightarrow> iter_commits repo (Some (as_tag translator v @ ''...'')));
          latest_version0 =
            (case latest_full_version_in_history of
               Some v \<Rightarrow> v
             | None \<Rightarrow> zero_version (translator_token translator));
          (parsed_levels, latest_version) =
            walk_commits parse
              (filter (\<lambda>(tag, version). prerelease \<or> \<not> is_prerelease version)
                 all_git_tags_as_versions)
              commits_since_last_full_release {} latest_version0;
          level_bump = max_level parsed_levels
      in
        if level_bump = NO_RELEASE then Inr latest_version
        else
          Inr (increment_version latest_version latest_full_release_version
                 (case latest_full_version_in_history of
                    Some v \<Rightarrow> v
                  | None \<Rightarrow> zero_version (translator_token translator))
                 level_bump prerelease (translator_token translator) major_on_zero))))))))"

text \<open>The levels of the commits of a list that parse.\<close>

definition parsed_levels :: "(Commit \<Rightarrow> ParseResult) \<Rightarrow> Commit list \<Rightarrow> LevelBump set" where
  "parsed_levels parse cs =
     set (List.map_filter
            (\<lambda>c. case parse c of Parsed p \<Rightarrow> Some (pc_bump p) | Failed _ \<Rightarrow> None) cs)"

section \<open>Commit parsers\<close>

text \<open>
  The parsers call \<^verbatim>\<open>parse_paragraphs\<close> and \<^verbatim>\<open>breaking_re\<close> of \<^verbatim>\<open>commit_parser/util.py\<close>,
  which is not among the source files, and Python's \<^verbatim>\<open>repr\<close>. They are arguments of
  the model: \<open>breaking_re_match p\<close> is \<open>Some\<close> of the captured group 1 when the pattern
  matches \<open>p\<close>.
\<close>

record ParserEnv =
  parse_paragraphs :: "string \<Rightarrow> string list"
  breaking_re_match :: "string \<Rightarrow> string option"
  repr :: "string \<Rightarrow> string"

subsection \<open>Matching\<close>

definition newline :: char where
  "newline = CHR 0x0A"

text \<open>
  The whitespace of \<^verbatim>\<open>\s\<close> and of \<^verbatim>\<open>str.strip()\<close> among the code points below 256: tab to
  carriage return, the four separators, space, the next-line control and the no-break
  space.
\<close>

definition is_space :: "char \<Rightarrow> bool" where
  "is_space c = ((of_char c :: nat) \<in> {9, 10, 11, 12, 13, 28, 29, 30, 31, 32, 133, 160})"

text \<open>
  \<^verbatim>\<open>(?P<subject>[^\n]+)(:?\n\n(?P<text>.+))?\<close> under \<^verbatim>\<open>DOTALL\<close>, at a position whose first
  character is not a newline: the subject is the rest of the line, the text everything
  after a blank line when there is something.
\<close>

definition match_subject_text :: "string \<Rightarrow> string \<times> string option" where
  "match_subject_text s =
     (takeWhile (\<lambda>c. c \<noteq> newline) s,
      (case dropWhile (\<lambda>c. c \<noteq> newline) s of
         a # b # t \<Rightarrow> if a = newline \<and> b = newline \<and> t \<noteq> [] then Some t else None
       | _ \<Rightarrow> None))"

text \<open>
  \<^verbatim>\<open>\s+\<close> followed by the subject: the longest run of whitespace that leaves a character
  other than a newline for the subject.
\<close>

definition match_spaces_subject :: "string \<Rightarrow> (string \<times> string option) option" where
  "match_spaces_subject s =
     (case find (\<lambda>k. k < length s \<and> s ! k \<noteq> newline)
             (rev [1 ..< Suc (length (takeWhile is_space s))]) of
        None \<Rightarrow> None
      | Some k \<Rightarrow> Some (match_subject_text (drop k s)))"

text \<open>\<^verbatim>\<open>(?P<break>!)?:\<close> and what follows.\<close>

definition match_break :: "string \<Rightarrow> (bool \<times> string \<times> string option) option" where
  "match_break s =
     (case s of
        [] \<Rightarrow> None
      | c # r \<Rightarrow>
          if c = CHR ''!'' then
            (case r of
               [] \<Rightarrow> None
             | d # r' \<Rightarrow>
                 if d = CHR '':'' then map_option (Pair True) (match_spaces_subject r')
                 else None)
          else if c = CHR '':'' then map_option (Pair False) (match_spaces_subject r)
          else None)"

text \<open>
  \<^verbatim>\<open>(?:\((?P<scope>[^\n]+)\))?\<close> and what follows: the longest scope on the line after which
  the rest matches, and no scope when there is none.
\<close>

definition match_scope ::
    "string \<Rightarrow> (string option \<times> bool \<times> string \<times> string option) option" where
  "match_scope s =
     (let with_scope =
            (case s of
               [] \<Rightarrow> []
             | c # r \<Rightarrow>
                 if c = CHR ''('' then
                   List.map_filter
                     (\<lambda>j. if j < length r \<and> r ! j = CHR '')''
                          then map_option (Pair (Some (take j r))) (match_break (drop (Suc j) r))
                          else None)
                     (rev [1 ..< Suc (length (takeWhile (\<lambda>c. c \<noteq> newline) r))])
                 else [])
      in
        case with_scope of
          m # _ \<Rightarrow> Some m
        | [] \<Rightarrow> map_option (Pair None) (match_break s))"

record AngularMatch =
  g_type :: string
  g_scope :: "string option"
  g_break :: bool
  g_subject :: string
  g_text :: "string option"

subsection \<open>The Angular parser\<close>

record AngularParserOptions =
  allowed_tags :: "string list"
  minor_tags :: "string list"
  patch_tags :: "string list"
  default_bump_level :: LevelBump

definition angular_default_options :: AngularParserOptions where
  "angular_default_options =
     \<lparr>allowed_tags =
        [''build'', ''chore'', ''ci'', ''docs'', ''feat'', ''fix'', ''perf'', ''style'',
         ''refactor'', ''test''],
      minor_tags = [''feat''],
      patch_tags = [''fix'', ''perf''],
      default_bump_level = NO_RELEASE\<rparr>"

definition LONG_TYPE_NAMES :: "(string \<times> string) list" where
  "LONG_TYPE_NAMES =
     [(''feat'', ''feature''), (''docs'', ''documentation''), (''perf'', ''performance'')]"

text \<open>
  \<^verbatim>\<open>AngularCommitParser.parse\<close>. The parser object holds the pattern that \<^verbatim>\<open>__init__\<close>
  compiled from the allowed tags; \<open>re_parser\<close> stands for \<^verbatim>\<open>self.re_parser.match\<close>, which
  yields the groups of a match or nothing.
\<close>

definition AngularCommitParser_parse :: "(string \<Rightarrow> AngularMatch option) \<Rightarrow> ParserEnv \<Rightarrow>
    AngularParserOptions \<Rightarrow> Commit \<Rightarrow> ParseResult" where
  "AngularCommitParser_parse re_parser env options c =
     (case re_parser (message c) of
        None \<Rightarrow>
          Failed \<lparr>pe_commit = c, pe_error = ''Unable to parse commit message''\<rparr>
      | Some parsed \<Rightarrow>
          (let descriptions =
                 g_subject parsed #
                   (case g_text parsed of
                      Some parsed_text \<Rightarrow> parse_paragraphs env parsed_text
                    | None \<Rightarrow> []);
               breaking_descriptions =
                 List.map_filter (breaking_re_match env) (tl descriptions);
               level_bump =
                 (if g_break parsed \<or> breaking_descriptions \<noteq> [] then MAJOR
                  else if g_type parsed \<in> set (minor_tags options) then MINOR
                  else if g_type parsed \<in> set (patch_tags options) then PATCH
                  else default_bump_level options)
           in
             Parsed
               \<lparr>pc_bump = level_bump,
                pc_type =
                  (case map_of LONG_TYPE_NAMES (g_type parsed) of
                     Some long \<Rightarrow> long
                   | None \<Rightarrow> g_type parsed),
                pc_scope = g_scope parsed,
                pc_descriptions = descriptions,
                pc_breaking_descriptions = breaking_descriptions,
                pc_commit = c\<rparr>))"

text \<open>
  The pattern of a parser built with the default options, whose first group is
  \<^verbatim>\<open>(?P<type>build|chore|ci|docs|feat|fix|perf|style|refactor|test)\<close>: the ten words are
  tried in their order, and the first one after which the rest of the pattern matches
  is taken.
\<close>

definition default_re_parser :: "string \<Rightarrow> AngularMatch option" where
  "default_re_parser msg =
     (case List.map_filter
             (\<lambda>t. if take (length t) msg = t
                  then map_option (Pair t) (match_scope (drop (length t) msg))
                  else None)
             [''build'', ''chore'', ''ci'', ''docs'', ''feat'', ''fix'', ''perf'', ''style'',
              ''refactor'', ''test''] of
        [] \<Rightarrow> None
      | (t, sc, br, subj, txt) # _ \<Rightarrow>
          Some \<lparr>g_type = t, g_scope = sc, g_break = br, g_subject = subj, g_text = txt\<rparr>)"

definition default_angular_parse :: "ParserEnv \<Rightarrow> Commit \<Rightarrow> ParseResult" where
  "default_angular_parse env =
     AngularCommitParser_parse default_re_parser env angular_default_options"

subsection \<open>The tag parser\<close>

record TagParserOptions =
  minor_tag :: string
  patch_tag :: string

definition tag_default_options :: TagParserOptions where
  "tag_default_options = \<lparr>minor_tag = '':sparkles:'', patch_tag = '':nut_and_bolt:''\<rparr>"

text \<open>\<^verbatim>\<open>re_parser.match(message)\<close> of \<^verbatim>\<open>tag.py\<close>: a first line that is not empty.\<close>

definition tag_re_parser_match :: "string \<Rightarrow> (string \<times> string option) option" where
  "tag_re_parser_match msg =
     (case msg of
        [] \<Rightarrow> None
      | c # _ \<Rightarrow> if c = newline then None else Some (match_subject_text msg))"

text \<open>\<^verbatim>\<open>sub in s\<close>, \<^verbatim>\<open>s.replace(old, "")\<close> and \<^verbatim>\<open>s.strip()\<close> on strings.\<close>

fun contains :: "string \<Rightarrow> string \<Rightarrow> bool" where
  "contains sub [] = (sub = [])"
| "contains sub (c # cs) = (take (length sub) (c # cs) = sub \<or> contains sub cs)"

function remove_all :: "string \<Rightarrow> string \<Rightarrow> string" where
  "remove_all old [] = []"
| "remove_all old (c # cs) =
     (if old \<noteq> [] \<and> take (length old) (c # cs) = old
      then remove_all old (drop (length old) (c # cs))
      else c # remove_all old cs)"
  by pat_completeness auto
termination
  by (relation "measure (\<lambda>(old, s). length s)") (auto simp: Suc_le_eq)

definition strip :: "string \<Rightarrow> string" where
  "strip s = rev (dropWhile is_space (rev (dropWhile is_space s)))"

definition tag_parse :: "ParserEnv \<Rightarrow> TagParserOptions \<Rightarrow> Commit \<Rightarrow> ParseResult" where
  "tag_parse env options c =
     (let msg = message c;
          unable =
            Failed \<lparr>pe_commit = c,
                    pe_error = ''Unable to parse the given commit message: '' @ repr env msg\<rparr>
      in
        case tag_re_parser_match msg of
          None \<Rightarrow> unable
        | Some (subject0, text) \<Rightarrow>
            (case (if contains (minor_tag options) msg then
                     Some (''feature'', MINOR,
                           if subject0 \<noteq> [] then remove_all (minor_tag options) subject0
                           else subject0)
                   else if contains (patch_tag options) msg then
                     Some (''fix'', PATCH,
                           if subject0 \<noteq> [] then remove_all (patch_tag options) subject0
                           else subject0)
                   else None) of
               None \<Rightarrow> unable
             | Some (level0, level_bump0, subject) \<Rightarrow>
                 (let descriptions =
                        strip subject #
                          (case text of
                             Some t \<Rightarrow> parse_paragraphs env t
                           | None \<Rightarrow> []);
                      breaking_descriptions =
                        List.map_filter (breaking_re_match env) (tl descriptions);
                      (level, level_bump) =
                        (if breaking_descriptions \<noteq> [] then (''breaking'', MAJOR)
                         else (level0, level_bump0))
                  in
                    Parsed
                      \<lparr>pc_bump = level_bump,
                       pc_type = level,
                       pc_scope = None,
                       pc_descriptions = descriptions,
                       pc_breaking_descriptions = breaking_descriptions,
                       pc_commit = c\<rparr>)))"

section \<open>\<open>release_history\<close>\<close>

text \<open>
  A release and the history, with dictionaries as association lists in insertion order.
  A date is a timestamp with a timezone offset. The committer of the environment
  (\<^verbatim>\<open>Actor.committer()\<close>) and \<^verbatim>\<open>datetime.fromtimestamp\<close>, which rejects some arguments, are
  arguments of the model.
\<close>

type_synonym datetime = "int \<times> int"

type_synonym buckets = "(string \<times> ParseResult list) list"

record Release =
  tagger :: string
  committer :: string
  tagged_date :: datetime
  elements :: buckets

record ReleaseHistory =
  unreleased :: buckets
  released :: "(Version \<times> Release) list"

record HistoryEnv =
  env_committer :: string
  fromtimestamp :: "int \<Rightarrow> int \<Rightarrow> error + datetime"

text \<open>\<^verbatim>\<open>d[key].append(x)\<close> on a \<^verbatim>\<open>defaultdict(list)\<close>.\<close>

fun bucket_append :: "string \<Rightarrow> ParseResult \<Rightarrow> buckets \<Rightarrow> buckets" where
  "bucket_append k x [] = [(k, [x])]"
| "bucket_append k x ((k', xs) # rest) =
     (if k' = k then (k', xs @ [x]) # rest else (k', xs) # bucket_append k x rest)"

text \<open>
  \<^verbatim>\<open>released.setdefault(v, release)\<close> and \<^verbatim>\<open>released[v]["elements"][type].append(x)\<close>; keys
  are versions, equal as dictionary keys when they are equal in precedence.
\<close>

fun setdefault :: "Version \<Rightarrow> Release \<Rightarrow> (Version \<times> Release) list \<Rightarrow> (Version \<times> Release) list" where
  "setdefault v r [] = [(v, r)]"
| "setdefault v r ((v', r') # rest) =
     (if version_eq v' v then (v', r') # rest else (v', r') # setdefault v r rest)"

fun released_append :: "Version \<Rightarrow> string \<Rightarrow> ParseResult \<Rightarrow> (Version \<times> Release) list \<Rightarrow>
    (Version \<times> Release) list option" where
  "released_append v k x [] = None"
| "released_append v k x ((v', r) # rest) =
     (if version_eq v' v then Some ((v', r\<lparr>elements := bucket_append k x (elements r)\<rparr>) # rest)
      else map_option (Cons (v', r)) (released_append v k x rest))"

text \<open>The \<^verbatim>\<open>Release\<close> entry built for a tag: from the tag object, or from the commit.\<close>

definition release_of :: "HistoryEnv \<Rightarrow> Tag \<Rightarrow> error + Release" where
  "release_of env tag =
     (case object tag of
        TagObject tg off date \<Rightarrow>
          (case fromtimestamp env date off of
             Inl e \<Rightarrow> Inl e
           | Inr d \<Rightarrow>
               Inr \<lparr>tagger = tg, committer = env_committer env, tagged_date = d,
                    elements = []\<rparr>)
      | CommitObject c \<Rightarrow>
          (case fromtimestamp env (committed_date c) (author_tz_offset c) of
             Inl e \<Rightarrow> Inl e
           | Inr d \<Rightarrow>
               Inr \<lparr>tagger = author c, committer = author c, tagged_date = d,
                    elements = []\<rparr>))"

record HistoryState =
  st_unreleased :: buckets
  st_released :: "(Version \<times> Release) list"
  is_commit_released :: bool
  the_version :: "Version option"

definition commit_type_of :: "ParseResult \<Rightarrow> string" where
  "commit_type_of parse_result =
     (case parse_result of Failed _ \<Rightarrow> ''unknown'' | Parsed p \<Rightarrow> pc_type p)"

text \<open>
  One turn of the loop over the commits. A tag without a version that points at the
  commit leaves \<^verbatim>\<open>the_version\<close> at \<^verbatim>\<open>None\<close>, and the turn raises \<^verbatim>\<open>RuntimeError\<close>; a lookup
  of a missing key raises \<^verbatim>\<open>KeyError\<close>.
\<close>

definition history_step :: "HistoryEnv \<Rightarrow> (Tag \<times> Version option) list \<Rightarrow>
    (Commit \<Rightarrow> ParseResult) \<Rightarrow> HistoryState \<Rightarrow> Commit \<Rightarrow> error + HistoryState" where
  "history_step env tvs parse st c =
     (let parse_result = parse c;
          commit_type = commit_type_of parse_result
      in
        case (case find (\<lambda>(tag, version). commit tag = c) tvs of
                None \<Rightarrow> Inr st
              | Some (tag, version) \<Rightarrow>
                  (case release_of env tag of
                     Inl e \<Rightarrow> Inl e
                   | Inr release \<Rightarrow>
                       Inr (st\<lparr>is_commit_released := True,
                               the_version := version,
                               st_released :=
                                 (case version of
                                    Some v \<Rightarrow> setdefault v release (st_released st)
                                  | None \<Rightarrow> st_released st)\<rparr>))) of
          Inl e \<Rightarrow> Inl e
        | Inr st' \<Rightarrow>
            if \<not> is_commit_released st'
            then Inr (st'\<lparr>st_unreleased :=
                            bucket_append commit_type parse_result (st_unreleased st')\<rparr>)
            else
              (case the_version st' of
                 None \<Rightarrow> Inl RuntimeError
               | Some v \<Rightarrow>
                   (case released_append v commit_type parse_result (st_released st') of
                      None \<Rightarrow> Inl KeyError
                    | Some rel \<Rightarrow> Inr (st'\<lparr>st_released := rel\<rparr>))))"

fun history_loop :: "HistoryEnv \<Rightarrow> (Tag \<times> Version option) list \<Rightarrow>
    (Commit \<Rightarrow> ParseResult) \<Rightarrow> Commit list \<Rightarrow> HistoryState \<Rightarrow> error + HistoryState" where
  "history_loop env tvs parse [] st = Inr st"
| "history_loop env tvs parse (c # cs) st =
     (case history_step env tvs parse st c of
        Inl e \<Rightarrow> Inl e
      | Inr st' \<Rightarrow> history_loop env tvs parse cs st')"

definition initial_state :: HistoryState where
  "initial_state =
     \<lparr>st_unreleased = [], st_released = [], is_commit_released = False, the_version = None\<rparr>"

definition release_history :: "HistoryEnv \<Rightarrow> Repo \<Rightarrow> VersionTranslator \<Rightarrow>
    (Commit \<Rightarrow> ParseResult) \<Rightarrow> error + ReleaseHistory" where
  "release_history env repo translator parse =
     (case tags_and_versions (tags repo) translator of
        Inl e \<Rightarrow> Inl e
      | Inr all_git_tags_and_versions \<Rightarrow>
          (case history_loop env all_git_tags_and_versions parse (iter_commits repo None)
                  initial_state of
             Inl e \<Rightarrow> Inl e
           | Inr st \<Rightarrow> Inr \<lparr>unreleased = st_unreleased st, released = st_released st\<rparr>))"

text \<open>Every bucket of a history, and every parse result in them.\<close>

definition released_buckets :: "(Version \<times> Release) list \<Rightarrow> buckets" where
  "released_buckets rel = concat (map (\<lambda>(v, r). elements r) rel)"

definition all_buckets :: "ReleaseHistory \<Rightarrow> buckets" where
  "all_buckets h = unreleased h @ released_buckets (released h)"

definition bucket_entries :: "buckets \<Rightarrow> ParseResult list" where
  "bucket_entries bs = concat (map snd bs)"

text \<open>Every entry of a dictionary of buckets is filed under its own type.\<close>

definition buckets_typed :: "buckets \<Rightarrow> bool" where
  "buckets_typed bs = (\<forall>b \<in> set bs. \<forall>r \<in> set (snd b). commit_type_of r = fst b)"

text \<open>
  The state of the loop after the commits \<open>done\<close>, where \<open>tagged\<close> tells the commits that
  a tag points at: the unreleased buckets hold the commits before the first tagged one,
  the released buckets the others, and once a tagged commit was met the current version
  is a key of \<open>released\<close>.
\<close>

definition history_inv ::
    "(Commit \<Rightarrow> ParseResult) \<Rightarrow> (Commit \<Rightarrow> bool) \<Rightarrow> Commit list \<Rightarrow> HistoryState \<Rightarrow> bool" where
  "history_inv parse tagged done st =
     (mset (bucket_entries (st_unreleased st)) =
        mset (map parse (takeWhile (\<lambda>c. \<not> tagged c) done)) \<and>
      mset (bucket_entries (released_buckets (st_released st))) =
        mset (map parse (dropWhile (\<lambda>c. \<not> tagged c) done)) \<and>
      buckets_typed (st_unreleased st) \<and>
      buckets_typed (released_buckets (st_released st)) \<and>
      distinct (map fst (st_unreleased st)) \<and>
      (\<forall>p \<in> set (st_released st). distinct (map fst (elements (snd p)))) \<and>
      (is_commit_released st \<longleftrightarrow> (\<exists>c \<in> set done. tagged c)) \<and>
      (is_commit_released st \<longrightarrow>
         (\<exists>v. the_version st = Some v \<and> (\<exists>p \<in> set (st_released st). version_eq (fst p) v))))"

section \<open>The HVCS base class\<close>

text \<open>
  \<^verbatim>\<open>_not_supported\<close> of \<^verbatim>\<open>hvcs/_base.py\<close> replaces a method by one that warns and returns
  \<^verbatim>\<open>True\<close>. The warnings issued so far are the state.
\<close>

definition not_supported :: "string \<Rightarrow> string \<Rightarrow> string list \<Rightarrow> bool \<times> string list" where
  "not_supported method_name qualname warnings =
     (True, warnings @ [method_name @ '' is not supported by '' @ qualname])"

datatype HvcsMethod =
    compare_url | check_build_status | upload_dists | create_release
  | get_release_id_by_tag | edit_release_changelog | create_or_update_release
  | asset_upload_url | upload_asset | remote_url | commit_hash_url | pull_request_url

fun method_name :: "HvcsMethod \<Rightarrow> string" where
  "method_name compare_url = ''compare_url''"
| "method_name check_build_status = ''check_build_status''"
| "method_name upload_dists = ''upload_dists''"
| "method_name create_release = ''create_release''"
| "method_name get_release_id_by_tag = ''get_release_id_by_tag''"
| "method_name edit_release_changelog = ''edit_release_changelog''"
| "method_name create_or_update_release = ''create_or_update_release''"
| "method_name asset_upload_url = ''asset_upload_url''"
| "method_name upload_asset = ''upload_asset''"
| "method_name remote_url = ''remote_url''"
| "method_name commit_hash_url = ''commit_hash_url''"
| "method_name pull_request_url = ''pull_request_url''"

text \<open>A method of \<^verbatim>\<open>HvcsBase\<close> that a client of class \<open>qualname\<close> does not override.\<close>

definition HvcsBase_call :: "HvcsMethod \<Rightarrow> string \<Rightarrow> string list \<Rightarrow> bool \<times> string list" where
  "HvcsBase_call m qualname warnings = not_supported (method_name m) qualname warnings"

text \<open>
  \<^verbatim>\<open>Gitlab.check_build_status\<close> of \<^verbatim>\<open>hvcs/gitlab.py\<close>, over the statuses the server lists for
  the commit: a client that supports the operation.
\<close>

record Job =
  job_name :: string
  status :: string
  allow_failure :: bool

fun gitlab_check_build_status :: "Job list \<Rightarrow> bool" where
  "gitlab_check_build_status [] = True"
| "gitlab_check_build_status (job # jobs) =
     (if status job = ''pending'' then False
      else if status job = ''failed'' \<and> \<not> allow_failure job then False
      else gitlab_check_build_status jobs)"

section \<open>Example repositories\<close>

text \<open>
  Concrete histories, tags and a translator for the tag format \<^verbatim>\<open>v{version}\<close>, on which
  the functions above are evaluated below.
\<close>

definition dev_commit :: "string \<Rightarrow> string \<Rightarrow> Commit list \<Rightarrow> Commit" where
  "dev_commit sha msg ps = Commit sha msg ''dev'' 0 0 ps"

text \<open>A history with a merge: \<open>M\<close> merges \<open>A\<close> and \<open>B\<close>, both on top of \<open>C\<close>, on top of \<open>R\<close>.\<close>

definition history_R :: Commit where
  "history_R = dev_commit ''r0'' ''fix: first'' []"

definition history_C :: Commit where
  "history_C = dev_commit ''c0'' ''feat: base'' [history_R]"

definition history_A :: Commit where
  "history_A = dev_commit ''a0'' ''fix: left'' [history_C]"

definition history_B :: Commit where
  "history_B = dev_commit ''b0'' ''fix: right'' [history_C]"

definition history_M :: Commit where
  "history_M = dev_commit ''m0'' ''Merge branch'' [history_A, history_B]"

definition tag_R :: Tag where
  "tag_R = \<lparr>name = ''v1.0.0'', commit = history_R, object = CommitObject history_R\<rparr>"

definition docs_tag :: Tag where
  "docs_tag = \<lparr>name = ''docs-2023'', commit = history_R, object = CommitObject history_R\<rparr>"

definition version_table :: "(string \<times> Version) list" where
  "version_table =
     [(''v1.0.0'', mk_version 1 0 0), (''v1.1.0'', mk_version 1 1 0),
      (''v1.2.3'', mk_version 1 2 3), (''v0.5.0'', mk_version 0 5 0)]"

definition example_translator :: VersionTranslator where
  "example_translator =
     \<lparr>from_tag = map_of version_table,
      from_string = (\<lambda>s. if s = ''0.0.0'' then Inr (mk_version 0 0 0) else Inl ValueError),
      as_tag = (\<lambda>v. case find (\<lambda>(s, w). w = v) version_table of
                       Some (s, w) \<Rightarrow> s
                     | None \<Rightarrow> ''v''),
      translator_token = ''rc''\<rparr>"

definition rc_version :: "nat \<Rightarrow> nat \<Rightarrow> nat \<Rightarrow> string \<Rightarrow> nat \<Rightarrow> Version" where
  "rc_version a b c tok n =
     (mk_version a b c)\<lparr>prerelease_token := Some tok, prerelease_revision := Some n\<rparr>"

text \<open>
  An environment for the parsers in which a body is one paragraph and a paragraph that
  starts with \<^verbatim>\<open>BREAKING CHANGE: \<close> describes a breaking change.
\<close>

definition example_env :: ParserEnv where
  "example_env =
     \<lparr>parse_paragraphs = (\<lambda>text. [text]),
      breaking_re_match =
        (\<lambda>p. if take 17 p = ''BREAKING CHANGE: '' \<and> 17 < length p then Some (drop 17 p)
             else None),
      repr = (\<lambda>s. s)\<rparr>"

text \<open>
  A branch \<^verbatim>\<open>main\<close> with one commit per message of \<open>msgs\<close> (oldest first) on top of a
  release commit that carries the only tag of the repository, \<open>tag_name\<close>.
\<close>

definition release_commit :: Commit where
  "release_commit = dev_commit ''e0'' ''chore: release'' []"

fun stack :: "Commit \<Rightarrow> string list \<Rightarrow> Commit list" where
  "stack base [] = []"
| "stack base (m # ms) = stack (dev_commit (''sha of '' @ m) m [base]) ms @
     [dev_commit (''sha of '' @ m) m [base]]"

definition on_top :: "string list \<Rightarrow> Commit list" where
  "on_top msgs = stack release_commit msgs"

definition release_tag :: "string \<Rightarrow> Tag" where
  "release_tag tag_name =
     \<lparr>name = tag_name, commit = release_commit, object = CommitObject release_commit\<rparr>"

definition tagged_repo :: "string \<Rightarrow> string list \<Rightarrow> Repo" where
  "tagged_repo tag_name msgs =
     \<lparr>tags = [release_tag tag_name],
      active_branch = ''main'',
      merge_base =
        (\<lambda>a b. if a = tag_name \<and> b = ''main'' then [Some release_commit]
               else if a = ''main'' \<and> b = ''main'' then [Some (hd (on_top msgs))]
               else []),
      iter_commits =
        (\<lambda>rev. if rev = None then on_top msgs @ [release_commit]
               else if rev = Some (tag_name @ ''...'') then on_top msgs
               else [])\<rparr>"

text \<open>The same repository with more tags next to the release tag.\<close>

definition tagged_repo_with :: "Tag list \<Rightarrow> string \<Rightarrow> string list \<Rightarrow> Repo" where
  "tagged_repo_with others tag_name msgs =
     (tagged_repo tag_name msgs)\<lparr>tags := release_tag tag_name # others\<rparr>"

text \<open>Commit messages: a no-break space after the colon, and bodies.\<close>

definition no_break_space_message :: string where
  "no_break_space_message = ''fix:'' @ [CHR 0xA0] @ ''x''"

definition breaking_message :: string where
  "breaking_message = ''fix: x'' @ [newline, newline] @ ''BREAKING CHANGE: y''"

definition untagged_breaking_message :: string where
  "untagged_breaking_message = ''Rework the API'' @ [newline, newline] @ ''BREAKING CHANGE: y''"

definition tagged_breaking_message :: string where
  "tagged_breaking_message =
     '':sparkles: Rework the API'' @ [newline, newline] @ ''BREAKING CHANGE: y''"

text \<open>
  A history for the changelog: three commits between \<open>v1.0.0\<close> and \<open>v1.1.0\<close>, the
  last of them tagged, and two commits after it, one of which does not parse.
\<close>

definition history_env :: HistoryEnv where
  "history_env = \<lparr>env_committer = ''ci'', fromtimestamp = (\<lambda>date offset. Inr (date, offset))\<rparr>"

definition changelog_commits :: "Commit list" where
  "changelog_commits =
     stack release_commit [''feat: a'', ''fix: b'', ''docs: c'', ''feat: d'', ''Merge branch main'']"

definition changelog_repo :: Repo where
  "changelog_repo =
     \<lparr>tags =
        [release_tag ''v1.0.0'',
         \<lparr>name = ''v1.1.0'', commit = changelog_commits ! 2,
          object = TagObject ''releaser'' 3600 1700000000\<rparr>],
      active_branch = ''main'',
      merge_base = (\<lambda>a b. [Some (changelog_commits ! 2)]),
      iter_commits = (\<lambda>rev. changelog_commits @ [release_commit])\<rparr>"

section \<open>Properties of \<open>Version.bump\<close>\<close>

lemma core_less_bump_major: "core_less v (bump_major v)"
  by (simp add: core_less_def bump_major_def mk_version_def)

lemma core_less_bump_minor: "core_less v (bump_minor v)"
  by (simp add: core_less_def bump_minor_def mk_version_def)

lemma core_less_bump_patch: "core_less v (bump_patch v)"
  by (simp add: core_less_def bump_patch_def mk_version_def)

lemma bump_plain_cases:
  "bump v MAJOR False tok = bump_major v"
  "bump v MINOR False tok = bump_minor v"
  "bump v PATCH False tok = bump_patch v"
  "bump v NO_RELEASE p tok = v"
  by (simp_all add: bump_def)

text \<open>
  Cases of \<^verbatim>\<open>test_version_bump\<close> in the repository's
  \<^verbatim>\<open>tests/unit/semantic_release/version/test_version.py\<close>, with the token \<^verbatim>\<open>rc\<close>.
\<close>

lemma bump_test_version:
  "bump (mk_version 1 0 0) MAJOR True ''rc'' = rc_version 2 0 0 ''rc'' 1"
  "bump (mk_version 1 0 0) MINOR True ''rc'' = rc_version 1 1 0 ''rc'' 1"
  "bump (mk_version 1 0 0) PATCH True ''rc'' = rc_version 1 0 1 ''rc'' 1"
  "bump (mk_version 1 0 0) NO_RELEASE True ''rc'' = mk_version 1 0 0"
  "bump (rc_version 1 0 0 ''rc'' 1) MAJOR False ''rc'' = mk_version 2 0 0"
  "bump (rc_version 1 0 0 ''rc'' 1) NO_RELEASE False ''rc'' = rc_version 1 0 0 ''rc'' 1"
  "bump (rc_version 1 0 0 ''rc'' 1) MAJOR True ''rc'' = rc_version 1 0 0 ''rc'' 2"
  "bump (rc_version 1 0 0 ''rc'' 1) PATCH True ''rc'' = rc_version 1 0 0 ''rc'' 2"
  "bump ((mk_version 1 0 0)\<lparr>build := Some ''build.12345''\<rparr>) MINOR False ''rc'' =
     mk_version 1 1 0"
  "bump ((mk_version 1 0 0)\<lparr>build := Some ''build.12345''\<rparr>) PATCH True ''rc'' =
     rc_version 1 0 1 ''rc'' 1"
  by code_simp+

text \<open>
  C8: \<open>v.bump(level)\<close> is strictly above \<open>v\<close> in precedence whenever
  \<open>level > NO_RELEASE\<close>, and \<open>v.bump(NO_RELEASE)\<close> is an equal copy of \<open>v\<close>
  (whatever the other two arguments are).
\<close>

theorem bump_greater:
  "(NO_RELEASE < level \<longrightarrow> version_less v (bump v level False tok)) \<and>
   bump v NO_RELEASE p tok = v"
proof (cases level)
  case NO_RELEASE
  then show ?thesis by (simp add: bump_plain_cases less_LevelBump_def)
next
  case PATCH
  then show ?thesis
    by (simp add: bump_plain_cases version_less_def core_less_bump_patch)
next
  case MINOR
  then show ?thesis
    by (simp add: bump_plain_cases version_less_def core_less_bump_minor)
next
  case MAJOR
  then show ?thesis
    by (simp add: bump_plain_cases version_less_def core_less_bump_major)
qed

theorem bump_greater_witness:
  "NO_RELEASE < MINOR \<and>
   version_less (mk_version 1 2 3) (bump (mk_version 1 2 3) MINOR False ''beta'') \<and>
   bump (mk_version 1 2 3) MINOR False ''beta'' = mk_version 1 3 0 \<and>
   bump (mk_version 1 2 3) NO_RELEASE False ''beta'' = mk_version 1 2 3"
  using bump_greater [of MINOR "mk_version 1 2 3" "''beta''" False]
  by (simp add: less_LevelBump_def bump_plain_cases bump_minor_def mk_version_def)

section \<open>The search for the latest version in history\<close>

text \<open>
  C2: the search is to return the version of the first full-release tag met in
  breadth-first order from the merge base, and \<open>None\<close> only when no commit of the
  ancestry is tagged; meeting a commit a second time must not end it. On the history
  with a merge, the tagged commit \<open>R\<close> is in the ancestry of \<open>M\<close>, and the search from
  \<open>M\<close> ends with \<open>None\<close> when it takes \<open>C\<close> from the queue the second time.
\<close>

theorem bfs_aborts_on_visited_commit:
  "commit tag_R \<in> set (ancestry history_M) \<and>
   bfs_for_latest_version_in_history history_M [(tag_R, mk_version 1 0 0)] = None"
  by (simp add: history_R_def history_C_def history_A_def history_B_def history_M_def
        tag_R_def dev_commit_def bfs_for_latest_version_in_history_def)

section \<open>The tag index\<close>

text \<open>
  C3: tags that do not translate are to be left out of the result of
  \<open>tags_and_versions\<close>. A single tag without a version is returned paired with \<open>None\<close>,
  and with a second tag the sort raises \<open>TypeError\<close>.
\<close>

theorem tags_and_versions_keeps_unmatched_tag:
  "from_tag example_translator (name docs_tag) = None \<and>
   tags_and_versions [docs_tag] example_translator = Inr [(docs_tag, None)] \<and>
   tags_and_versions [docs_tag, tag_R] example_translator = Inl TypeError"
  by (simp add: tags_and_versions_def sorted_desc_def example_translator_def
        version_table_def docs_tag_def tag_R_def)

section \<open>Properties of \<open>_increment_version\<close>\<close>

lemma bump_not_prerelease:
  "level \<noteq> NO_RELEASE \<Longrightarrow> prerelease_token (bump v level False tok) = None \<and>
     prerelease_revision (bump v level False tok) = None"
  by (cases level) (simp_all add: bump_def bump_major_def bump_minor_def bump_patch_def mk_version_def)

text \<open>
  C4: in prerelease mode, when the effective level does not exceed the difference between
  \<open>latest_version\<close> and the latest full version in history, the result keeps the core
  triple of \<open>latest_version\<close> and sets the prerelease suffix: the configured token, with
  revision 1 when the token of \<open>latest_version\<close> differs from it and the previous
  revision plus one otherwise (a missing revision counting as 0). When the level exceeds
  the difference, the result is the finalized latest full version bumped by the level,
  with the configured token at revision 1.
\<close>

theorem increment_version_prerelease:
  assumes "diff = version_diff latest_version latest_full_version_in_history"
    and "eff = (if \<not> major_on_zero \<and> major latest_version = 0 then min level_bump MINOR
                else level_bump)"
    and "result = increment_version latest_version latest_full_version
                    latest_full_version_in_history level_bump True token major_on_zero"
  shows "(\<not> diff < eff \<longrightarrow>
            major result = major latest_version \<and> minor result = minor latest_version \<and>
            patch result = patch latest_version \<and> build result = build latest_version \<and>
            prerelease_token result = Some token \<and>
            prerelease_revision result =
              Some (if prerelease_token latest_version \<noteq> Some token then 1
                    else (case prerelease_revision latest_version of
                            Some r \<Rightarrow> r + 1
                          | None \<Rightarrow> 1))) \<and>
         (diff < eff \<longrightarrow>
            result = to_prerelease (bump (finalize_version latest_full_version) eff False ''beta'')
                       token None \<and>
            prerelease_token result = Some token \<and> prerelease_revision result = Some 1)"
proof -
  have "eff \<noteq> NO_RELEASE" if "diff < eff"
    using that by (auto simp: less_LevelBump_def)
  then have fresh:
    "prerelease_revision (bump (finalize_version latest_full_version) eff False ''beta'') = None"
    if "diff < eff"
    using that bump_not_prerelease by blast
  have unfolded: "result =
     (if diff < eff
      then to_prerelease (bump (finalize_version latest_full_version) eff False ''beta'') token None
      else to_prerelease latest_version token
             (Some (if prerelease_token latest_version \<noteq> Some token then 1
                    else (case prerelease_revision latest_version of
                            Some r \<Rightarrow> r
                          | None \<Rightarrow> 0) + 1)))"
    unfolding assms by (simp add: increment_version_def Let_def)
  show ?thesis
    using fresh unfolding unfolded
    by (auto simp: to_prerelease_def split: option.splits)
qed

theorem increment_version_prerelease_witness:
  "increment_version (rc_version 1 2 4 ''rc'' 1) (mk_version 1 2 3) (mk_version 1 2 3)
      PATCH True ''rc'' True = rc_version 1 2 4 ''rc'' 2 \<and>
   increment_version (rc_version 1 2 4 ''rc'' 1) (mk_version 1 2 3) (mk_version 1 2 3)
      MINOR True ''rc'' True = rc_version 1 3 0 ''rc'' 1"
  using
    increment_version_prerelease
      [where latest_version = "rc_version 1 2 4 ''rc'' 1" and level_bump = PATCH
         and latest_full_version = "mk_version 1 2 3"
         and latest_full_version_in_history = "mk_version 1 2 3"
         and token = "''rc''" and major_on_zero = True, OF refl refl refl]
    increment_version_prerelease
      [where latest_version = "rc_version 1 2 4 ''rc'' 1" and level_bump = MINOR
         and latest_full_version = "mk_version 1 2 3"
         and latest_full_version_in_history = "mk_version 1 2 3"
         and token = "''rc''" and major_on_zero = True, OF refl refl refl]
  by (simp add: rc_version_def mk_version_def version_diff_def less_LevelBump_def
       to_prerelease_def bump_def bump_minor_def finalize_version_def increment_version_def)

text \<open>
  C5: \<open>_increment_version\<close> works on an effective level: the given level clamped to at
  most \<open>MINOR\<close> when \<open>major_on_zero\<close> is false and the latest version has major 0, and the
  given level unchanged otherwise; every branch of the increment uses that level. So a
  \<open>MAJOR\<close> level on a version that is not a prerelease, outside prerelease mode, raises
  the minor component in the first case and the major component in every other case.
  From the tag \<open>v0.5.0\<close> with the commit \<open>feat!: X\<close> on a branch that is not a prerelease
  branch, \<open>next_version\<close> returns 0.6.0 with \<open>major_on_zero\<close> false, and 1.0.0 with it
  true.
\<close>

theorem major_on_zero_clamp:
  "increment_version latest_version latest_full_version latest_full_version_in_history
      level_bump prerelease token major_on_zero =
     (let eff = (if \<not> major_on_zero \<and> major latest_version = 0 then min level_bump MINOR
                 else level_bump);
          diff = version_diff latest_version latest_full_version_in_history
      in
        if prerelease then
          (if diff < eff
           then to_prerelease (bump (finalize_version latest_full_version) eff False ''beta'')
                  token None
           else to_prerelease latest_version token
                  (Some (if prerelease_token latest_version \<noteq> Some token then 1
                         else (case prerelease_revision latest_version of
                                 Some r \<Rightarrow> r
                               | None \<Rightarrow> 0) + 1)))
        else if is_prerelease latest_version then
          (if diff < eff then finalize_version (bump latest_version eff False ''beta'')
           else finalize_version latest_version)
        else bump latest_version eff False ''beta'') \<and>
   (\<not> prerelease \<and> \<not> is_prerelease latest_version \<and> level_bump = MAJOR \<longrightarrow>
      increment_version latest_version latest_full_version latest_full_version_in_history
          level_bump prerelease token major_on_zero =
        (if \<not> major_on_zero \<and> major latest_version = 0
         then mk_version 0 (minor latest_version + 1) 0
         else mk_version (major latest_version + 1) 0 0)) \<and>
   next_version (tagged_repo ''v0.5.0'' [''feat!: X'']) example_translator
      (default_angular_parse example_env) False False = Inr (mk_version 0 6 0) \<and>
   next_version (tagged_repo ''v0.5.0'' [''feat!: X'']) example_translator
      (default_angular_parse example_env) False True = Inr (mk_version 1 0 0)"
proof (intro conjI impI)
  show "increment_version latest_version latest_full_version latest_full_version_in_history
      level_bump prerelease token major_on_zero =
     (let eff = (if \<not> major_on_zero \<and> major latest_version = 0 then min level_bump MINOR
                 else level_bump);
          diff = version_diff latest_version latest_full_version_in_history
      in
        if prerelease then
          (if diff < eff
           then to_prerelease (bump (finalize_version latest_full_version) eff False ''beta'')
                  token None
           else to_prerelease latest_version token
                  (Some (if prerelease_token latest_version \<noteq> Some token then 1
                         else (case prerelease_revision latest_version of
                                 Some r \<Rightarrow> r
                               | None \<Rightarrow> 0) + 1)))
        else if is_prerelease latest_version then
          (if diff < eff then finalize_version (bump latest_version eff False ''beta'')
           else finalize_version latest_version)
        else bump latest_version eff False ''beta'')"
    by (simp add: increment_version_def Let_def)
next
  assume "\<not> prerelease \<and> \<not> is_prerelease latest_version \<and> level_bump = MAJOR"
  then show "increment_version latest_version latest_full_version latest_full_version_in_history
          level_bump prerelease token major_on_zero =
        (if \<not> major_on_zero \<and> major latest_version = 0
         then mk_version 0 (minor latest_version + 1) 0
         else mk_version (major latest_version + 1) 0 0)"
    by (simp add: increment_version_def bump_def bump_major_def bump_minor_def min_def
          less_eq_LevelBump_def)
next
  show "next_version (tagged_repo ''v0.5.0'' [''feat!: X'']) example_translator
      (default_angular_parse example_env) False False = Inr (mk_version 0 6 0)"
    by code_simp
next
  show "next_version (tagged_repo ''v0.5.0'' [''feat!: X'']) example_translator
      (default_angular_parse example_env) False True = Inr (mk_version 1 0 0)"
    by code_simp
qed

theorem major_on_zero_clamp_witness:
  "increment_version (mk_version 0 5 0) (mk_version 0 5 0) (mk_version 0 5 0) MAJOR False ''rc''
     False = mk_version 0 6 0 \<and>
   increment_version (mk_version 0 5 0) (mk_version 0 5 0) (mk_version 0 5 0) MAJOR False ''rc''
     True = mk_version 1 0 0 \<and>
   increment_version (mk_version 1 5 0) (mk_version 1 5 0) (mk_version 1 5 0) MAJOR False ''rc''
     False = mk_version 2 0 0 \<and>
   increment_version (mk_version 0 5 0) (mk_version 0 5 0) (mk_version 0 5 0) PATCH False ''rc''
     False = mk_version 0 5 1"
proof -
  have plain: "\<not> is_prerelease (mk_version a b c)" for a b c
    by (simp add: is_prerelease_def mk_version_def)
  have majors: "major (mk_version a b c) = a" "minor (mk_version a b c) = b" for a b c
    by (simp_all add: mk_version_def)
  note whole = major_on_zero_clamp [where prerelease = False and token = "''rc''"]
  note on_major = whole [THEN conjunct2, THEN conjunct1]
  have a: "increment_version (mk_version 0 5 0) (mk_version 0 5 0) (mk_version 0 5 0) MAJOR False
      ''rc'' False = mk_version 0 6 0"
    using on_major [of "mk_version 0 5 0" MAJOR "mk_version 0 5 0" "mk_version 0 5 0" False]
    by (simp add: plain majors)
  have b: "increment_version (mk_version 0 5 0) (mk_version 0 5 0) (mk_version 0 5 0) MAJOR False
      ''rc'' True = mk_version 1 0 0"
    using on_major [of "mk_version 0 5 0" MAJOR "mk_version 0 5 0" "mk_version 0 5 0" True]
    by (simp add: plain majors)
  have c: "increment_version (mk_version 1 5 0) (mk_version 1 5 0) (mk_version 1 5 0) MAJOR False
      ''rc'' False = mk_version 2 0 0"
    using on_major [of "mk_version 1 5 0" MAJOR "mk_version 1 5 0" "mk_version 1 5 0" False]
    by (simp add: plain majors numeral_2_eq_2)
  have "increment_version (mk_version 0 5 0) (mk_version 0 5 0) (mk_version 0 5 0) PATCH False
      ''rc'' False = bump (mk_version 0 5 0) PATCH False ''beta''"
    using whole [THEN conjunct1, of "mk_version 0 5 0" "mk_version 0 5 0" "mk_version 0 5 0"
        PATCH False]
    by (simp add: plain majors min_def less_eq_LevelBump_def)
  then have d: "increment_version (mk_version 0 5 0) (mk_version 0 5 0) (mk_version 0 5 0) PATCH
      False ''rc'' False = mk_version 0 5 1"
    by (simp add: bump_def bump_patch_def mk_version_def)
  show ?thesis
    using a b c d by simp
qed

section \<open>Properties of \<open>next_version\<close>\<close>

lemma walk_commits_untagged:
  "\<forall>c \<in> set cs. find (\<lambda>(tag, version). commit tag = c) tvs = None \<Longrightarrow>
   walk_commits parse tvs cs levels lv = (levels \<union> parsed_levels parse cs, lv)"
  by (induction cs arbitrary: levels)
     (auto simp: parsed_levels_def List.map_filter_simps Let_def split: ParseResult.splits)

lemma max_level_three: "max_level {MINOR, PATCH, MAJOR} = MAJOR"
  by (simp add: max_level_def max_def less_eq_LevelBump_def)

text \<open>
  With a single tag, the full release \<open>v1.2.3\<close> found from the merge base, and untagged
  commits since the tag whose levels are \<open>MINOR\<close>, \<open>PATCH\<close> and \<open>MAJOR\<close>, the overall level
  is their maximum and the next version is 2.0.0.
\<close>

lemma next_version_major_bump:
  assumes tags: "tags repo = [t]"
    and tag: "from_tag translator (name t) = Some (mk_version 1 2 3)"
    and zero: "from_string translator ''0.0.0'' = Inr zero"
    and base: "merge_base repo (name t) (active_branch repo) = [Some mb]"
    and found: "bfs_for_latest_version_in_history mb [(t, mk_version 1 2 3)] =
                  Some (mk_version 1 2 3)"
    and since: "iter_commits repo (Some (as_tag translator (mk_version 1 2 3) @ ''...'')) = cs"
    and untagged: "commit t \<notin> set cs"
    and levels: "parsed_levels parse cs = {MINOR, PATCH, MAJOR}"
  shows "max_level (parsed_levels parse cs) = MAJOR \<and>
         next_version repo translator parse False True = Inr (mk_version 2 0 0)"
proof -
  define v where "v = mk_version 1 2 3"
  have tv: "tags_and_versions (tags repo) translator = Inr [(t, Some v)]"
    by (simp add: tags_and_versions_def sorted_desc_def tags tag v_def)
  have full: "\<not> is_prerelease v"
    by (simp add: is_prerelease_def mk_version_def v_def)
  have "\<forall>c \<in> set cs. find (\<lambda>(tag, version). commit tag = c) [(t, v)] = None"
    using untagged by auto
  then have walk: "walk_commits parse [(t, v)] cs {} v = ({MINOR, PATCH, MAJOR}, v)"
    by (simp add: walk_commits_untagged levels)
  have inc: "increment_version v v v MAJOR False tok True = mk_version 2 0 0" for tok
    by (simp add: increment_version_def is_prerelease_def bump_def bump_major_def
          mk_version_def v_def)
  have "next_version repo translator parse False True = Inr (mk_version 2 0 0)"
    using found since
    unfolding next_version_def v_def [symmetric]
    by (simp add: tv full zero base walk inc max_level_three)
  then show ?thesis
    by (simp add: levels max_level_three)
qed

lemma next_version_major_bump_example:
  "next_version (tagged_repo ''v1.2.3'' [''feat: A'', ''fix: B'', ''feat!: C''])
     example_translator (default_angular_parse example_env) False True =
   Inr (mk_version 2 0 0)"
proof -
  let ?msgs = "[''feat: A'', ''fix: B'', ''feat!: C'']"
  let ?repo = "tagged_repo ''v1.2.3'' ?msgs"
  let ?t = "release_tag ''v1.2.3''"
  let ?parse = "default_angular_parse example_env"
  have tags: "tags ?repo = [?t]"
    by (simp add: tagged_repo_def)
  have tag: "from_tag example_translator (name ?t) = Some (mk_version 1 2 3)"
    by (simp add: example_translator_def version_table_def release_tag_def)
  have zero: "from_string example_translator ''0.0.0'' = Inr (mk_version 0 0 0)"
    by (simp add: example_translator_def)
  have base: "merge_base ?repo (name ?t) (active_branch ?repo) = [Some release_commit]"
    by (simp add: tagged_repo_def release_tag_def)
  have found: "bfs_for_latest_version_in_history release_commit [(?t, mk_version 1 2 3)] =
                 Some (mk_version 1 2 3)"
    by (simp add: bfs_for_latest_version_in_history_def release_tag_def)
  have since: "iter_commits ?repo (Some (as_tag example_translator (mk_version 1 2 3) @ ''...''))
                 = on_top ?msgs"
    by (simp add: tagged_repo_def example_translator_def version_table_def mk_version_def)
  have untagged: "commit ?t \<notin> set (on_top ?msgs)"
    by (simp add: release_tag_def on_top_def dev_commit_def release_commit_def)
  have levels: "parsed_levels ?parse (on_top ?msgs) = {MINOR, PATCH, MAJOR}"
    by code_simp
  show ?thesis
    using next_version_major_bump [OF tags tag zero base found since untagged levels]
    by simp
qed

text \<open>
  C1: for a repository whose latest tag is the full release \<open>v1.2.3\<close>, on a branch that
  is not a prerelease branch and with \<open>major_on_zero\<close> true, the commits \<open>feat: A\<close>,
  \<open>fix: B\<close> and \<open>feat!: C\<close> since the tag are to give the next version 2.0.0. They do
  when \<open>v1.2.3\<close> is the only tag and when an older release \<open>v1.0.0\<close> is tagged as well;
  with a second tag that is not a version tag, \<open>next_version\<close> raises \<open>TypeError\<close> while
  it sorts the tags.
\<close>

theorem next_version_raises_on_unmatched_tag:
  "next_version (tagged_repo ''v1.2.3'' [''feat: A'', ''fix: B'', ''feat!: C''])
     example_translator (default_angular_parse example_env) False True =
     Inr (mk_version 2 0 0) \<and>
   next_version (tagged_repo_with [tag_R] ''v1.2.3'' [''feat: A'', ''fix: B'', ''feat!: C''])
     example_translator (default_angular_parse example_env) False True =
     Inr (mk_version 2 0 0) \<and>
   next_version (tagged_repo_with [docs_tag] ''v1.2.3'' [''feat: A'', ''fix: B'', ''feat!: C''])
     example_translator (default_angular_parse example_env) False True =
     Inl TypeError"
proof (intro conjI)
  show "next_version (tagged_repo ''v1.2.3'' [''feat: A'', ''fix: B'', ''feat!: C''])
     example_translator (default_angular_parse example_env) False True =
     Inr (mk_version 2 0 0)"
    by code_simp
  show "next_version (tagged_repo_with [tag_R] ''v1.2.3'' [''feat: A'', ''fix: B'', ''feat!: C''])
     example_translator (default_angular_parse example_env) False True =
     Inr (mk_version 2 0 0)"
    by code_simp
  show "next_version (tagged_repo_with [docs_tag] ''v1.2.3'' [''feat: A'', ''fix: B'', ''feat!: C''])
     example_translator (default_angular_parse example_env) False True =
     Inl TypeError"
    by (simp add: next_version_def tagged_repo_with_def tagged_repo_def tags_and_versions_def
          sorted_desc_def example_translator_def version_table_def docs_tag_def
          release_tag_def)
qed

section \<open>Properties of the commit parsers\<close>

lemma map_filter_empty_iff: "List.map_filter f xs \<noteq> [] \<longleftrightarrow> (\<exists>x \<in> set xs. f x \<noteq> None)"
  by (induction xs) (auto simp: List.map_filter_simps split: option.splits)

text \<open>
  C7: \<open>AngularCommitParser.parse\<close> returns a value for every commit, whatever pattern the
  parser holds: a \<open>ParseError\<close> when the message does not match the pattern, and
  otherwise a \<open>ParsedCommit\<close> whose level is \<open>MAJOR\<close> when the \<open>!\<close> marker is present or a
  paragraph of the body matches the breaking-change pattern, else \<open>MINOR\<close> for a type
  among the minor tags, else \<open>PATCH\<close> for a type among the patch tags, else the default
  level; the subject is the first description and the captured texts are the breaking
  descriptions. The error becomes an exception only through \<open>raise_error\<close>.
\<close>

theorem angular_parse_result:
  "(re_parser (message c) = None \<longrightarrow>
      (\<exists>e. AngularCommitParser_parse re_parser env options c = Failed e \<and>
           raise_error e = Inl (CommitParseError (pe_error e)))) \<and>
   (\<forall>parsed. re_parser (message c) = Some parsed \<longrightarrow>
      (\<exists>p. AngularCommitParser_parse re_parser env options c = Parsed p \<and>
           pc_bump p =
             (if g_break parsed \<or>
                 (\<exists>paragraph \<in> set (case g_text parsed of
                                        Some parsed_text \<Rightarrow> parse_paragraphs env parsed_text
                                      | None \<Rightarrow> []).
                    breaking_re_match env paragraph \<noteq> None)
              then MAJOR
              else if g_type parsed \<in> set (minor_tags options) then MINOR
              else if g_type parsed \<in> set (patch_tags options) then PATCH
              else default_bump_level options) \<and>
           hd (pc_descriptions p) = g_subject parsed \<and>
           pc_breaking_descriptions p =
             List.map_filter (breaking_re_match env) (tl (pc_descriptions p))))"
  by (simp add: AngularCommitParser_parse_def raise_error_def Let_def map_filter_empty_iff)

theorem angular_parse_result_witness:
  "(\<exists>e. default_angular_parse example_env (dev_commit ''m0'' ''Merge branch'' []) = Failed e) \<and>
   (\<exists>p. default_angular_parse example_env (dev_commit ''f0'' ''feat!: C'' []) = Parsed p \<and>
        pc_bump p = MAJOR) \<and>
   (\<exists>p. default_angular_parse example_env (dev_commit ''f1'' breaking_message []) = Parsed p \<and>
        pc_bump p = MAJOR) \<and>
   (\<exists>p. default_angular_parse example_env (dev_commit ''f2'' ''docs: typo'' []) = Parsed p \<and>
        pc_bump p = NO_RELEASE) \<and>
   (\<exists>p. default_angular_parse example_env (dev_commit ''f3'' no_break_space_message []) =
          Parsed p \<and> pc_bump p = PATCH)"
proof -
  let ?opts = angular_default_options
  note main = angular_parse_result [where re_parser = default_re_parser and env = example_env
      and options = ?opts, folded default_angular_parse_def]
  have m0: "default_re_parser (message (dev_commit ''m0'' ''Merge branch'' [])) = None"
    by code_simp
  have f0: "default_re_parser (message (dev_commit ''f0'' ''feat!: C'' [])) =
      Some \<lparr>g_type = ''feat'', g_scope = None, g_break = True, g_subject = ''C'', g_text = None\<rparr>"
    by code_simp
  have f1: "default_re_parser (message (dev_commit ''f1'' breaking_message [])) =
      Some \<lparr>g_type = ''fix'', g_scope = None, g_break = False, g_subject = ''x'',
            g_text = Some ''BREAKING CHANGE: y''\<rparr>"
    by code_simp
  have f2: "default_re_parser (message (dev_commit ''f2'' ''docs: typo'' [])) =
      Some \<lparr>g_type = ''docs'', g_scope = None, g_break = False, g_subject = ''typo'',
            g_text = None\<rparr>"
    by code_simp
  have f3: "default_re_parser (message (dev_commit ''f3'' no_break_space_message [])) =
      Some \<lparr>g_type = ''fix'', g_scope = None, g_break = False, g_subject = ''x'',
            g_text = None\<rparr>"
    by code_simp
  have w0: "\<exists>e. default_angular_parse example_env (dev_commit ''m0'' ''Merge branch'' []) = Failed e"
    using main [of "dev_commit ''m0'' ''Merge branch'' []"] m0
    by blast
  have w1: "\<exists>p. default_angular_parse example_env (dev_commit ''f0'' ''feat!: C'' []) = Parsed p \<and>
              pc_bump p = MAJOR"
    using main [of "dev_commit ''f0'' ''feat!: C'' []"]
    unfolding f0 by auto
  have w2: "\<exists>p. default_angular_parse example_env (dev_commit ''f1'' breaking_message []) = Parsed p \<and>
              pc_bump p = MAJOR"
    using main [of "dev_commit ''f1'' breaking_message []"]
    unfolding f1 by (auto simp: example_env_def)
  have w3: "\<exists>p. default_angular_parse example_env (dev_commit ''f2'' ''docs: typo'' []) = Parsed p \<and>
              pc_bump p = NO_RELEASE"
    using main [of "dev_commit ''f2'' ''docs: typo'' []"]
    unfolding f2 by (auto simp: angular_default_options_def)
  have w4: "\<exists>p. default_angular_parse example_env (dev_commit ''f3'' no_break_space_message []) =
              Parsed p \<and> pc_bump p = PATCH"
    using main [of "dev_commit ''f3'' no_break_space_message []"]
    unfolding f3 by (auto simp: angular_default_options_def)
  show ?thesis
    using w0 w1 w2 w3 w4 by blast
qed

text \<open>
  C10: \<open>TagCommitParser.parse\<close> returns a \<open>ParseError\<close> for every message that contains
  neither the minor tag nor the patch tag, whatever its body; a parsed commit comes from
  a message with one of the tags, and its level is \<open>MAJOR\<close> exactly when a paragraph of
  the body describes a breaking change.
\<close>

theorem tag_parse_requires_tag:
  "(\<not> contains (minor_tag options) (message c) \<and> \<not> contains (patch_tag options) (message c) \<longrightarrow>
      (\<exists>e. tag_parse env options c = Failed e)) \<and>
   (\<forall>p. tag_parse env options c = Parsed p \<longrightarrow>
      (contains (minor_tag options) (message c) \<or> contains (patch_tag options) (message c)) \<and>
      (pc_bump p = MAJOR \<longleftrightarrow> pc_breaking_descriptions p \<noteq> []))"
  by (auto simp: tag_parse_def Let_def split: option.splits prod.splits if_splits)

theorem tag_parse_requires_tag_witness:
  "\<not> contains (minor_tag tag_default_options) untagged_breaking_message \<and>
   \<not> contains (patch_tag tag_default_options) untagged_breaking_message \<and>
   (\<exists>e. tag_parse example_env tag_default_options (dev_commit ''u0'' untagged_breaking_message [])
          = Failed e) \<and>
   (\<exists>p. tag_parse example_env tag_default_options (dev_commit ''u1'' tagged_breaking_message [])
          = Parsed p \<and> pc_bump p = MAJOR \<and> pc_descriptions p = [''Rework the API'', ''BREAKING CHANGE: y''])"
proof -
  have no_minor: "\<not> contains (minor_tag tag_default_options) untagged_breaking_message"
    by code_simp
  have no_patch: "\<not> contains (patch_tag tag_default_options) untagged_breaking_message"
    by code_simp
  have tagged: "tag_parse example_env tag_default_options (dev_commit ''u1'' tagged_breaking_message [])
     = Parsed \<lparr>pc_bump = MAJOR, pc_type = ''breaking'', pc_scope = None,
          pc_descriptions = [''Rework the API'', ''BREAKING CHANGE: y''],
          pc_breaking_descriptions = [''y''],
          pc_commit = dev_commit ''u1'' tagged_breaking_message []\<rparr>"
    by code_simp
  show ?thesis
    using tag_parse_requires_tag [of tag_default_options
        "dev_commit ''u0'' untagged_breaking_message []" example_env]
      tag_parse_requires_tag [of tag_default_options
        "dev_commit ''u1'' tagged_breaking_message []" example_env]
      no_minor no_patch tagged
    by (simp add: dev_commit_def)
qed

section \<open>Properties of the HVCS base class\<close>

text \<open>
  C9, as stated: an operation that a client does not support is to return a value that a
  caller can tell from a successful result. The build status check of the base class
  returns what the check of the Gitlab client returns for a commit whose build passed.
\<close>

theorem not_supported_equals_success:
  "fst (HvcsBase_call check_build_status ''HvcsBase'' []) = gitlab_check_build_status []"
  by (simp add: HvcsBase_call_def not_supported_def)

text \<open>
  C9, amended: an operation of the base class that a client does not override returns
  \<open>True\<close> without raising, and tells the lack of support only by one more warning, which
  names the method and the class of the client.
\<close>

theorem not_supported_returns_true:
  "HvcsBase_call m qualname warnings =
     (True, warnings @ [method_name m @ '' is not supported by '' @ qualname])"
  by (simp add: HvcsBase_call_def not_supported_def)

section \<open>Properties of \<open>release_history\<close>\<close>

lemma bucket_entries_append:
  "mset (bucket_entries (bucket_append k x bs)) = add_mset x (mset (bucket_entries bs))"
  by (induction bs) (auto simp: bucket_entries_def)

lemma buckets_typed_Cons:
  "buckets_typed ((k, rs) # bs) \<longleftrightarrow> (\<forall>r \<in> set rs. commit_type_of r = k) \<and> buckets_typed bs"
  by (simp add: buckets_typed_def)

lemma buckets_typed_append:
  "buckets_typed bs \<Longrightarrow> commit_type_of x = k \<Longrightarrow> buckets_typed (bucket_append k x bs)"
proof (induction bs)
  case Nil
  then show ?case by (simp add: buckets_typed_def)
next
  case (Cons b bs)
  obtain k' xs where b: "b = (k', xs)" by (cases b)
  from Cons show ?case
    by (cases "k' = k") (simp_all add: b buckets_typed_Cons)
qed

lemma bucket_append_keys: "fst ` set (bucket_append k x bs) = insert k (fst ` set bs)"
proof (induction bs)
  case Nil
  then show ?case by simp
next
  case (Cons b bs)
  obtain k' xs where b: "b = (k', xs)" by (cases b)
  from Cons show ?case
    by (cases "k' = k") (auto simp: b)
qed

lemma bucket_append_distinct:
  "distinct (map fst bs) \<Longrightarrow> distinct (map fst (bucket_append k x bs))"
proof (induction bs)
  case Nil
  then show ?case by simp
next
  case (Cons b bs)
  obtain k' xs where b: "b = (k', xs)" by (cases b)
  show ?case
  proof (cases "k' = k")
    case True
    with Cons.prems b show ?thesis by simp
  next
    case False
    have "k' \<notin> fst ` set (bucket_append k x bs)"
      using Cons.prems b False by (simp add: bucket_append_keys)
    with Cons b False show ?thesis by simp
  qed
qed

lemma released_append_entries:
  "released_append v k x rel = Some rel' \<Longrightarrow>
   mset (bucket_entries (released_buckets rel')) =
     add_mset x (mset (bucket_entries (released_buckets rel)))"
proof (induction rel arbitrary: rel')
  case Nil
  then show ?case by simp
next
  case (Cons p rel)
  obtain v' r where p: "p = (v', r)" by (cases p)
  show ?case
  proof (cases "version_eq v' v")
    case True
    with Cons.prems p have "rel' = (v', r\<lparr>elements := bucket_append k x (elements r)\<rparr>) # rel"
      by simp
    then show ?thesis
      using bucket_entries_append [of k x "elements r"]
      by (simp add: p released_buckets_def bucket_entries_def)
  next
    case False
    with Cons.prems p obtain rest where rest: "released_append v k x rel = Some rest"
      and rel': "rel' = (v', r) # rest"
      by auto
    from Cons.IH [OF rest] show ?thesis
      by (simp add: p rel' released_buckets_def bucket_entries_def)
  qed
qed

lemma buckets_typed_append_lists:
  "buckets_typed (as @ bs) \<longleftrightarrow> buckets_typed as \<and> buckets_typed bs"
  by (auto simp: buckets_typed_def)

lemma released_buckets_Cons:
  "released_buckets ((v, r) # rel) = elements r @ released_buckets rel"
  by (simp add: released_buckets_def)

lemma released_append_typed:
  "released_append v k x rel = Some rel' \<Longrightarrow> buckets_typed (released_buckets rel) \<Longrightarrow>
   commit_type_of x = k \<Longrightarrow> buckets_typed (released_buckets rel')"
proof (induction rel arbitrary: rel')
  case Nil
  then show ?case by simp
next
  case (Cons p rel)
  obtain v' r where p: "p = (v', r)" by (cases p)
  from Cons.prems(2) have typed: "buckets_typed (elements r)" "buckets_typed (released_buckets rel)"
    by (simp_all add: p released_buckets_Cons buckets_typed_append_lists)
  show ?case
  proof (cases "version_eq v' v")
    case True
    with Cons.prems p have "rel' = (v', r\<lparr>elements := bucket_append k x (elements r)\<rparr>) # rel"
      by simp
    then show ?thesis
      using typed Cons.prems(3)
      by (simp add: released_buckets_Cons buckets_typed_append_lists buckets_typed_append)
  next
    case False
    with Cons.prems p obtain rest where rest: "released_append v k x rel = Some rest"
      and rel': "rel' = (v', r) # rest"
      by auto
    from Cons.IH [OF rest typed(2) Cons.prems(3)] typed(1) show ?thesis
      by (simp add: rel' released_buckets_Cons buckets_typed_append_lists)
  qed
qed

lemma released_append_keys:
  "released_append v k x rel = Some rel' \<Longrightarrow> map fst rel' = map fst rel"
  by (induction rel arbitrary: rel') (auto split: if_splits)

lemma released_append_distinct:
  "released_append v k x rel = Some rel' \<Longrightarrow>
   \<forall>p \<in> set rel. distinct (map fst (elements (snd p))) \<Longrightarrow>
   \<forall>p \<in> set rel'. distinct (map fst (elements (snd p)))"
proof (induction rel arbitrary: rel')
  case Nil
  then show ?case by simp
next
  case (Cons q rel)
  obtain v' r where q: "q = (v', r)" by (cases q)
  show ?case
  proof (cases "version_eq v' v")
    case True
    with Cons.prems q have "rel' = (v', r\<lparr>elements := bucket_append k x (elements r)\<rparr>) # rel"
      by simp
    with Cons.prems(2) q show ?thesis
      by (simp add: bucket_append_distinct)
  next
    case False
    with Cons.prems q obtain rest where rest: "released_append v k x rel = Some rest"
      and rel': "rel' = (v', r) # rest"
      by auto
    from Cons.IH [OF rest] Cons.prems(2) q show ?thesis
      by (simp add: rel')
  qed
qed

lemma released_append_succeeds:
  "\<exists>p \<in> set rel. version_eq (fst p) v \<Longrightarrow> \<exists>rel'. released_append v k x rel = Some rel'"
proof (induction rel)
  case Nil
  then show ?case by simp
next
  case (Cons q rel)
  obtain v' r where q: "q = (v', r)" by (cases q)
  show ?case
  proof (cases "version_eq v' v")
    case True
    then show ?thesis by (simp add: q)
  next
    case False
    with Cons.prems q have "\<exists>p \<in> set rel. version_eq (fst p) v"
      by auto
    from Cons.IH [OF this] False show ?thesis
      by (auto simp: q)
  qed
qed

lemma setdefault_buckets:
  "elements r = [] \<Longrightarrow> released_buckets (setdefault v r rel) = released_buckets rel"
  by (induction rel) (auto simp: released_buckets_def)

lemma setdefault_distinct:
  "elements r = [] \<Longrightarrow> \<forall>p \<in> set rel. distinct (map fst (elements (snd p))) \<Longrightarrow>
   \<forall>p \<in> set (setdefault v r rel). distinct (map fst (elements (snd p)))"
proof (induction rel)
  case Nil
  then show ?case by simp
next
  case (Cons q rel)
  obtain v' r' where q: "q = (v', r')" by (cases q)
  from Cons have "\<forall>p \<in> set (setdefault v r rel). distinct (map fst (elements (snd p)))"
    by simp
  with Cons.prems(2) show ?case
    by (cases "version_eq v' v") (simp_all add: q)
qed

lemma version_eq_refl: "version_eq v v"
  by (simp add: version_eq_def core_eq_def)

lemma setdefault_has_key: "\<exists>p \<in> set (setdefault v r rel). version_eq (fst p) v"
proof (induction rel)
  case Nil
  then show ?case by (simp add: version_eq_refl)
next
  case (Cons q rel)
  obtain v' r' where q: "q = (v', r')" by (cases q)
  show ?case
  proof (cases "version_eq v' v")
    case True
    then show ?thesis by (simp add: q)
  next
    case False
    with Cons.IH show ?thesis by (auto simp: q)
  qed
qed

lemma release_of_elements: "release_of env tag = Inr r \<Longrightarrow> elements r = []"
  by (auto simp: release_of_def split: TagTarget.splits sum.splits)

lemma while_append_all:
  "\<forall>x \<in> set xs. P x \<Longrightarrow> P c \<Longrightarrow>
   takeWhile P (xs @ [c]) = xs @ [c] \<and> dropWhile P (xs @ [c]) = [] \<and>
   takeWhile P xs = xs \<and> dropWhile P xs = []"
  by simp

lemma while_append_later:
  "\<exists>x \<in> set xs. \<not> P x \<Longrightarrow>
   takeWhile P (xs @ [c]) = takeWhile P xs \<and> dropWhile P (xs @ [c]) = dropWhile P xs @ [c]"
  by (auto simp: takeWhile_append1 dropWhile_append1)

lemma while_append_stop:
  assumes "\<not> P c"
  shows "takeWhile P (xs @ [c]) = takeWhile P xs \<and>
         dropWhile P (xs @ [c]) = dropWhile P xs @ [c]"
proof (cases "\<forall>x \<in> set xs. P x")
  case True
  then have tw: "takeWhile P xs = xs" "dropWhile P xs = []"
    by simp_all
  from True assms show ?thesis
    by (simp add: tw)
next
  case False
  then show ?thesis using while_append_later [of xs P c] by blast
qed

lemma key_preserved:
  assumes "map fst rel' = map fst rel" and "\<exists>p \<in> set rel. Q (fst p)"
  shows "\<exists>p \<in> set rel'. Q (fst p)"
proof -
  from assms(2) have "\<exists>k \<in> set (map fst rel). Q k"
    by auto
  then have "\<exists>k \<in> set (map fst rel'). Q k"
    by (simp only: assms(1))
  then show ?thesis
    by auto
qed

lemma history_step_shape:
  assumes "history_step env tvs parse st c = Inr st'"
  shows "(find (\<lambda>(tag, version). commit tag = c) tvs = None \<and> \<not> is_commit_released st \<and>
          st' = st\<lparr>st_unreleased :=
                     bucket_append (commit_type_of (parse c)) (parse c) (st_unreleased st)\<rparr>) \<or>
         (find (\<lambda>(tag, version). commit tag = c) tvs = None \<and> is_commit_released st \<and>
          (\<exists>v rel. the_version st = Some v \<and>
             released_append v (commit_type_of (parse c)) (parse c) (st_released st) = Some rel \<and>
             st' = st\<lparr>st_released := rel\<rparr>)) \<or>
         (\<exists>tag v release rel.
             find (\<lambda>(tag, version). commit tag = c) tvs = Some (tag, Some v) \<and>
             release_of env tag = Inr release \<and>
             released_append v (commit_type_of (parse c)) (parse c)
               (setdefault v release (st_released st)) = Some rel \<and>
             st' = st\<lparr>is_commit_released := True, the_version := Some v, st_released := rel\<rparr>)"
  using assms
  by (auto simp: history_step_def Let_def split: option.splits sum.splits if_splits prod.splits)

lemma history_step_inv:
  assumes inv: "history_inv parse tagged done st"
    and tagged: "tagged = (\<lambda>c. find (\<lambda>(tag, version). commit tag = c) tvs \<noteq> None)"
    and step: "history_step env tvs parse st c = Inr st'"
  shows "history_inv parse tagged (done @ [c]) st'"
proof -
  let ?k = "commit_type_of (parse c)"
  let ?P = "\<lambda>c. \<not> tagged c"
  from inv have
    un: "mset (bucket_entries (st_unreleased st)) = mset (map parse (takeWhile ?P done))" and
    re: "mset (bucket_entries (released_buckets (st_released st))) =
           mset (map parse (dropWhile ?P done))" and
    tu: "buckets_typed (st_unreleased st)" and
    tr: "buckets_typed (released_buckets (st_released st))" and
    du: "distinct (map fst (st_unreleased st))" and
    dr: "\<forall>p \<in> set (st_released st). distinct (map fst (elements (snd p)))" and
    flag: "is_commit_released st \<longleftrightarrow> (\<exists>c \<in> set done. tagged c)" and
    key: "is_commit_released st \<longrightarrow>
            (\<exists>v. the_version st = Some v \<and> (\<exists>p \<in> set (st_released st). version_eq (fst p) v))"
    unfolding history_inv_def by blast+
  from history_step_shape [OF step] consider
    (unreleased) "\<not> tagged c" "\<not> is_commit_released st"
      "st' = st\<lparr>st_unreleased := bucket_append ?k (parse c) (st_unreleased st)\<rparr>"
  | (released) v rel where "\<not> tagged c" "is_commit_released st" "the_version st = Some v"
      "released_append v ?k (parse c) (st_released st) = Some rel"
      "st' = st\<lparr>st_released := rel\<rparr>"
  | (tag) t v release rel where "tagged c" "release_of env t = Inr release"
      "released_append v ?k (parse c) (setdefault v release (st_released st)) = Some rel"
      "st' = st\<lparr>is_commit_released := True, the_version := Some v, st_released := rel\<rparr>"
    unfolding tagged by fastforce
  then show ?thesis
  proof cases
    case unreleased
    from unreleased(2) flag have all: "\<forall>x \<in> set done. ?P x" by blast
    then have w: "takeWhile ?P done = done" "dropWhile ?P done = []"
      by simp_all
    show ?thesis
      unfolding history_inv_def
      using unreleased un re tu tr du dr flag all w
      by (simp add: bucket_entries_append buckets_typed_append bucket_append_distinct)
  next
    case released
    from released(2) flag have ex: "\<exists>x \<in> set done. \<not> ?P x" by blast
    note w = while_append_later [OF ex, of c]
    from key released have "\<exists>p \<in> set (st_released st). version_eq (fst p) v"
      by auto
    then have key': "\<exists>p \<in> set rel. version_eq (fst p) v"
      using released_append_keys [OF released(4)] by (rule key_preserved [rotated])
    show ?thesis
      unfolding history_inv_def
      using released un re tu tr du dr flag key' w
        released_append_entries [OF released(4)]
        released_append_typed [OF released(4) tr refl]
        released_append_distinct [OF released(4) dr]
      by simp
  next
    case tag
    have "\<not> \<not> tagged c" using tag(1) by simp
    note w = while_append_stop [where P = ?P and c = c and xs = "done", OF this]
    have el: "elements release = []"
      using tag(2) by (rule release_of_elements)
    let ?rel0 = "setdefault v release (st_released st)"
    have tr0: "buckets_typed (released_buckets ?rel0)"
      using tr by (simp add: setdefault_buckets [OF el])
    have dr0: "\<forall>p \<in> set ?rel0. distinct (map fst (elements (snd p)))"
      using setdefault_distinct [OF el dr] .
    have key': "\<exists>p \<in> set rel. version_eq (fst p) v"
      using released_append_keys [OF tag(3)] setdefault_has_key [of v release "st_released st"]
      by (rule key_preserved)
    show ?thesis
      unfolding history_inv_def
      using tag(1,4) un re tu du key' w
        released_append_entries [OF tag(3)]
        released_append_typed [OF tag(3) tr0 refl]
        released_append_distinct [OF tag(3) dr0]
      by (simp add: setdefault_buckets [OF el])
  qed
qed

lemma history_loop_inv:
  assumes "history_inv parse tagged done st"
    and "tagged = (\<lambda>c. find (\<lambda>(tag, version). commit tag = c) tvs \<noteq> None)"
    and "history_loop env tvs parse cs st = Inr st'"
  shows "history_inv parse tagged (done @ cs) st'"
  using assms
proof (induction cs arbitrary: "done" st)
  case Nil
  then show ?case by simp
next
  case (Cons c cs)
  from Cons.prems(3) obtain st1 where step: "history_step env tvs parse st c = Inr st1"
    and rest: "history_loop env tvs parse cs st1 = Inr st'"
    by (auto split: sum.splits)
  from history_step_inv [OF Cons.prems(1,2) step]
  have "history_inv parse tagged (done @ [c]) st1" .
  from Cons.IH [OF this Cons.prems(2) rest] show ?case by simp
qed

lemma history_inv_initial: "history_inv parse tagged [] initial_state"
  by (simp add: history_inv_def initial_state_def bucket_entries_def released_buckets_def
        buckets_typed_def)

lemma set_insort_desc: "set (insort_desc x ys) = insert x (set ys)"
  by (induction ys) auto

lemma set_foldr_insort_desc: "set (foldr insort_desc xs []) = set xs"
  by (induction xs) (simp_all add: set_insort_desc)

lemma tags_and_versions_set:
  "tags_and_versions ts translator = Inr tvs \<Longrightarrow>
   set tvs = (\<lambda>t. (t, from_tag translator (name t))) ` set ts"
  by (auto simp: tags_and_versions_def sorted_desc_def set_foldr_insort_desc split: if_splits)

lemma tagged_iff:
  assumes "tags_and_versions ts translator = Inr tvs"
  shows "find (\<lambda>(tag, version). commit tag = c) tvs \<noteq> None \<longleftrightarrow> (\<exists>t \<in> set ts. commit t = c)"
proof -
  have "find (\<lambda>(tag, version). commit tag = c) tvs \<noteq> None \<longleftrightarrow>
          (\<exists>p \<in> set tvs. commit (fst p) = c)"
    by (force simp: find_None_iff)
  then show ?thesis
    by (simp add: tags_and_versions_set [OF assms])
qed

lemma tags_and_versions_succeeds:
  assumes "\<forall>t \<in> set ts. from_tag translator (name t) \<noteq> None"
  shows "\<exists>tvs. tags_and_versions ts translator = Inr tvs \<and> (\<forall>p \<in> set tvs. snd p \<noteq> None)"
proof -
  have "\<forall>x \<in> set (map (\<lambda>t. (t, from_tag translator (name t))) ts). snd x \<noteq> None"
    using assms by simp
  then show ?thesis
    unfolding tags_and_versions_def sorted_desc_def
    by (simp add: set_foldr_insort_desc del: set_map)
qed

lemma release_of_succeeds:
  "\<forall>d z. \<exists>dt. fromtimestamp env d z = Inr dt \<Longrightarrow> \<exists>r. release_of env tag = Inr r"
proof -
  assume ok: "\<forall>d z. \<exists>dt. fromtimestamp env d z = Inr dt"
  show ?thesis
  proof (cases "object tag")
    case (TagObject tg off date)
    from ok obtain dt where "fromtimestamp env date off = Inr dt" by blast
    with TagObject show ?thesis by (simp add: release_of_def)
  next
    case (CommitObject c)
    from ok obtain dt where "fromtimestamp env (committed_date c) (author_tz_offset c) = Inr dt"
      by blast
    with CommitObject show ?thesis by (simp add: release_of_def)
  qed
qed

lemma history_step_succeeds:
  assumes inv: "history_inv parse tagged done st"
    and versions: "\<forall>p \<in> set tvs. snd p \<noteq> None"
    and dates: "\<forall>d z. \<exists>dt. fromtimestamp env d z = Inr dt"
  shows "\<exists>st'. history_step env tvs parse st c = Inr st'"
proof (cases "find (\<lambda>(tag, version). commit tag = c) tvs")
  case None
  show ?thesis
  proof (cases "is_commit_released st")
    case False
    with None show ?thesis by (simp add: history_step_def Let_def)
  next
    case True
    with inv obtain v where v: "the_version st = Some v"
      "\<exists>p \<in> set (st_released st). version_eq (fst p) v"
      unfolding history_inv_def by blast
    from released_append_succeeds [OF v(2)] obtain rel where
      "released_append v (commit_type_of (parse c)) (parse c) (st_released st) = Some rel"
      by blast
    with None True v(1) show ?thesis by (simp add: history_step_def Let_def)
  qed
next
  case (Some p)
  obtain t version where p: "p = (t, version)" by (cases p)
  from Some have "p \<in> set tvs"
    by (metis find_Some_iff nth_mem)
  with versions p obtain v where v: "version = Some v" by auto
  from release_of_succeeds [OF dates] obtain release where r: "release_of env t = Inr release"
    by blast
  from released_append_succeeds [OF setdefault_has_key] obtain rel where
    "released_append v (commit_type_of (parse c)) (parse c)
       (setdefault v release (st_released st)) = Some rel"
    by blast
  with Some p v r show ?thesis by (simp add: history_step_def Let_def)
qed

lemma history_loop_succeeds:
  assumes "history_inv parse tagged done st"
    and "tagged = (\<lambda>c. find (\<lambda>(tag, version). commit tag = c) tvs \<noteq> None)"
    and "\<forall>p \<in> set tvs. snd p \<noteq> None"
    and "\<forall>d z. \<exists>dt. fromtimestamp env d z = Inr dt"
  shows "\<exists>st'. history_loop env tvs parse cs st = Inr st'"
  using assms(1)
proof (induction cs arbitrary: "done" st)
  case Nil
  then show ?case by simp
next
  case (Cons c cs)
  from history_step_succeeds [OF Cons.prems assms(3,4)] obtain st1 where
    step: "history_step env tvs parse st c = Inr st1"
    by blast
  from history_step_inv [OF Cons.prems assms(2) step]
  have "history_inv parse tagged (done @ [c]) st1" .
  from Cons.IH [OF this] step show ?case by simp
qed

text \<open>
  C6: when \<open>release_history\<close> returns a history, the parse results in all of its buckets
  are, with multiplicity, those of the commits walked; the unreleased buckets hold
  exactly the commits met before the first tagged commit; every result is filed under
  the key \<open>unknown\<close> if it is a \<open>ParseError\<close> and under its parsed type otherwise; and
  the keys of every dictionary of buckets are distinct, so that a result lies in one
  bucket. It does return a history when every tag translates and the dates of the tags
  convert.
\<close>

theorem release_history_buckets:
  "(\<forall>h. release_history env repo translator parse = Inr h \<longrightarrow>
      mset (bucket_entries (all_buckets h)) = mset (map parse (iter_commits repo None)) \<and>
      mset (bucket_entries (unreleased h)) =
        mset (map parse (takeWhile (\<lambda>c. \<forall>t \<in> set (tags repo). commit t \<noteq> c)
                           (iter_commits repo None))) \<and>
      (\<forall>b \<in> set (all_buckets h). \<forall>r \<in> set (snd b).
         fst b = (case r of Failed e \<Rightarrow> ''unknown'' | Parsed p \<Rightarrow> pc_type p)) \<and>
      distinct (map fst (unreleased h)) \<and>
      (\<forall>p \<in> set (released h). distinct (map fst (elements (snd p))))) \<and>
   ((\<forall>t \<in> set (tags repo). from_tag translator (name t) \<noteq> None) \<and>
    (\<forall>d z. \<exists>dt. fromtimestamp env d z = Inr dt) \<longrightarrow>
      (\<exists>h. release_history env repo translator parse = Inr h))"
proof (intro conjI allI impI)
  fix h
  assume run: "release_history env repo translator parse = Inr h"
  let ?cs = "iter_commits repo None"
  from run obtain tvs st where tv: "tags_and_versions (tags repo) translator = Inr tvs"
    and loop: "history_loop env tvs parse ?cs initial_state = Inr st"
    and h: "h = \<lparr>unreleased = st_unreleased st, released = st_released st\<rparr>"
    by (auto simp: release_history_def split: sum.splits)
  define tagged where "tagged = (\<lambda>c. find (\<lambda>(tag, version). commit tag = c) tvs \<noteq> None)"
  have tagged: "(\<lambda>c. \<not> tagged c) = (\<lambda>c. \<forall>t \<in> set (tags repo). commit t \<noteq> c)"
    unfolding tagged_def using tagged_iff [OF tv] by auto
  from history_loop_inv [OF history_inv_initial tagged_def loop]
  have inv: "history_inv parse tagged ?cs st" by simp
  then have un: "mset (bucket_entries (st_unreleased st)) =
      mset (map parse (takeWhile (\<lambda>c. \<not> tagged c) ?cs))"
    and re: "mset (bucket_entries (released_buckets (st_released st))) =
      mset (map parse (dropWhile (\<lambda>c. \<not> tagged c) ?cs))"
    and typed: "buckets_typed (st_unreleased st)" "buckets_typed (released_buckets (st_released st))"
    and dist: "distinct (map fst (st_unreleased st))"
      "\<forall>p \<in> set (st_released st). distinct (map fst (elements (snd p)))"
    unfolding history_inv_def by blast+
  have "mset (map parse (takeWhile (\<lambda>c. \<not> tagged c) ?cs)) +
        mset (map parse (dropWhile (\<lambda>c. \<not> tagged c) ?cs)) = mset (map parse ?cs)"
    by (metis map_append mset_append takeWhile_dropWhile_id)
  with un re show "mset (bucket_entries (all_buckets h)) = mset (map parse ?cs)"
    by (simp add: h all_buckets_def bucket_entries_def)
  from un show "mset (bucket_entries (unreleased h)) =
      mset (map parse (takeWhile (\<lambda>c. \<forall>t \<in> set (tags repo). commit t \<noteq> c) ?cs))"
    by (simp add: h tagged)
  from typed show "\<forall>b \<in> set (all_buckets h). \<forall>r \<in> set (snd b).
         fst b = (case r of Failed e \<Rightarrow> ''unknown'' | Parsed p \<Rightarrow> pc_type p)"
    by (auto simp: h all_buckets_def buckets_typed_def commit_type_of_def)
  from dist show "distinct (map fst (unreleased h))"
    and "\<forall>p \<in> set (released h). distinct (map fst (elements (snd p)))"
    by (simp_all add: h)
next
  assume ok: "(\<forall>t \<in> set (tags repo). from_tag translator (name t) \<noteq> None) \<and>
    (\<forall>d z. \<exists>dt. fromtimestamp env d z = Inr dt)"
  then obtain tvs where tv: "tags_and_versions (tags repo) translator = Inr tvs"
    and versions: "\<forall>p \<in> set tvs. snd p \<noteq> None"
    using tags_and_versions_succeeds by blast
  from history_loop_succeeds [OF history_inv_initial refl versions] ok
  obtain st where "history_loop env tvs parse (iter_commits repo None) initial_state = Inr st"
    by blast
  with tv show "\<exists>h. release_history env repo translator parse = Inr h"
    by (simp add: release_history_def)
qed

theorem release_history_buckets_witness:
  "\<exists>h. release_history history_env changelog_repo example_translator
          (default_angular_parse example_env) = Inr h \<and>
       map fst (unreleased h) = [''unknown'', ''feature''] \<and>
       map (\<lambda>(v, r). (v, map fst (elements r))) (released h) =
         [(mk_version 1 1 0, [''documentation'', ''fix'', ''feature'']),
          (mk_version 1 0 0, [''chore''])] \<and>
       mset (bucket_entries (all_buckets h)) =
         mset (map (default_angular_parse example_env)
                 (iter_commits changelog_repo None))"
proof -
  let ?parse = "default_angular_parse example_env"
  note main = release_history_buckets [of history_env changelog_repo example_translator ?parse]
  have tags_ok: "\<forall>t \<in> set (tags changelog_repo). from_tag example_translator (name t) \<noteq> None"
    by (simp add: changelog_repo_def example_translator_def version_table_def release_tag_def)
  have dates_ok: "\<forall>d z. \<exists>dt. fromtimestamp history_env d z = Inr dt"
    by (simp add: history_env_def)
  from main tags_ok dates_ok obtain h where
    h: "release_history history_env changelog_repo example_translator ?parse = Inr h"
    by blast
  have keys: "(case release_history history_env changelog_repo example_translator ?parse of
                 Inr h \<Rightarrow> map fst (unreleased h) = [''unknown'', ''feature''] \<and>
                   map (\<lambda>(v, r). (v, map fst (elements r))) (released h) =
                     [(mk_version 1 1 0, [''documentation'', ''fix'', ''feature'']),
                      (mk_version 1 0 0, [''chore''])]
               | Inl e \<Rightarrow> False)"
    by code_simp
  from main h have "mset (bucket_entries (all_buckets h)) =
      mset (map ?parse (iter_commits changelog_repo None))"
    by blast
  with h keys show ?thesis
    by auto
qed

end
